theory Spec2Isabelle
  imports Main "HOL-Library.List_Lexorder"
begin

section \<open>Python strings\<close>

text \<open>
  A Python \<^verbatim>\<open>str\<close> is a sequence of Unicode code points; \<^verbatim>\<open>len\<close> counts
  code points and \<^verbatim>\<open>sorted\<close> compares strings lexicographically by code point.
  A code point is a natural number, a string a list of them, ordered by the lexicographic
  order of \<open>List_Lexorder\<close>. \<open>ascii\<close> writes an ASCII literal.
\<close>

type_synonym uchar = nat
type_synonym str = "uchar list"

definition ascii :: "string \<Rightarrow> str" where
  "ascii s = map of_char s"

text \<open>\<^verbatim>\<open>str.isspace\<close> of one code point (the whitespace table of CPython).\<close>

definition py_isspace :: "uchar \<Rightarrow> bool" where
  "py_isspace c \<longleftrightarrow>
     (9 \<le> c \<and> c \<le> 13) \<or> (28 \<le> c \<and> c \<le> 32) \<or> c = 133 \<or> c = 160 \<or> c = 5760 \<or>
     (8192 \<le> c \<and> c \<le> 8202) \<or> c = 8232 \<or> c = 8233 \<or> c = 8239 \<or> c = 8287 \<or> c = 12288"

text \<open>\<^verbatim>\<open>s.strip()\<close>: leading and trailing whitespace removed.\<close>

definition strip :: "str \<Rightarrow> str" where
  "strip s = rev (dropWhile py_isspace (rev (dropWhile py_isspace s)))"

text \<open>\<^verbatim>\<open>"\n".join(lines)\<close> and \<^verbatim>\<open>s.split("\n")\<close>.\<close>

fun join_nl :: "str list \<Rightarrow> str" where
  "join_nl [] = []"
| "join_nl [l] = l"
| "join_nl (l # ls) = l @ [10] @ join_nl ls"

fun split_nl :: "str \<Rightarrow> str list" where
  "split_nl [] = [[]]"
| "split_nl (c # cs) =
     (if c = 10 then [] # split_nl cs
      else (case split_nl cs of [] \<Rightarrow> [[c]] | l # ls \<Rightarrow> (c # l) # ls))"

text \<open>
  \<^verbatim>\<open>os.path.join(a, b)\<close> of posixpath: an absolute \<open>b\<close> replaces \<open>a\<close>; a separator is
  inserted unless \<open>a\<close> is empty or ends with one.
\<close>

definition path_join :: "str \<Rightarrow> str \<Rightarrow> str" where
  "path_join a b =
     (if b \<noteq> [] \<and> hd b = 47 then b
      else if a = [] \<or> last a = 47 then a @ b
      else a @ [47] @ b)"

section \<open>Exceptions\<close>

text \<open>
  An exception is its class and its message \<^verbatim>\<open>str(e)\<close>. \<open>PermissionError\<close> is the one
  class \<open>print_tree\<close> names; every class here derives from \<^verbatim>\<open>Exception\<close>, which is what
  \<open>summarize_file\<close> catches.
\<close>

datatype exn_class =
  PermissionError | FileNotFoundError | NotADirectoryError | IsADirectoryError
  | UnicodeDecodeError | UnicodeEncodeError | OtherOSError | OtherException

datatype pyexn = PyExn (exn_cls: exn_class) (exn_msg: str)

section \<open>fnmatch\<close>

text \<open>
  \<open>fnmatch.translate\<close> turns a shell pattern into a regular expression. The tokens of its
  list \<open>res\<close>: the \<open>STAR\<close> marker, or an item matching one character: \<^verbatim>\<open>.\<close>, an escaped
  literal, a character set, and \<^verbatim>\<open>(?!)\<close>, which never matches.
\<close>

datatype setitem = Lit uchar | Range uchar uchar

datatype re_item = ANY | LIT uchar | NEVER | CLASS bool "setitem list"

datatype tok = STAR | ITEM re_item

text \<open>
  The end of a bracket expression, for the text \<open>p\<close> that follows \<^verbatim>\<open>[\<close>: the index
  \<open>j\<close> of the closing bracket (relative to \<open>p\<close>), after an optional \<^verbatim>\<open>!\<close> and an optional
  leading \<^verbatim>\<open>]\<close>; \<open>None\<close> when there is none (\<^verbatim>\<open>j >= n\<close>).
\<close>

definition bracket_end :: "str \<Rightarrow> nat option" where
  "bracket_end p =
     (let j0 = (if p \<noteq> [] \<and> hd p = 33 then 1 else 0);
          j1 = (if j0 < length p \<and> p ! j0 = 93 then j0 + 1 else j0);
          j = j1 + length (takeWhile (\<lambda>c. c \<noteq> 93) (drop j1 p))
      in if j \<ge> length p then None else Some j)"

text \<open>
  The chunks of a bracket expression that contains a hyphen: the text is cut at each hyphen
  that can be a range operator. \<open>skip\<close> counts the characters that must pass before the next
  hyphen is one (\<^verbatim>\<open>k = i+1\<close> or \<^verbatim>\<open>i+2\<close> at the start, \<^verbatim>\<open>k = k+3\<close> after a hyphen);
  \<open>cur\<close> is \<^verbatim>\<open>pat[i:k]\<close> so far. The last element is the final \<^verbatim>\<open>pat[i:j]\<close>.
\<close>

fun range_chunks :: "nat \<Rightarrow> str \<Rightarrow> str \<Rightarrow> str list" where
  "range_chunks skip cur [] = [cur]"
| "range_chunks skip cur (c # cs) =
     (if skip = 0 \<and> c = 45 then cur # range_chunks 2 [] cs
      else range_chunks (skip - 1) (cur @ [c]) cs)"

text \<open>An empty final chunk is dropped and a hyphen appended to the chunk before it.\<close>

definition close_chunks :: "str list \<Rightarrow> str list" where
  "close_chunks cs =
     (if cs \<noteq> [] \<and> last cs = [] then
        (let ds = butlast cs in if ds = [] then [] else butlast ds @ [last ds @ [45]])
      else cs)"

text \<open>
  Empty ranges are removed, from the right: where the last character of a chunk is greater
  than the first of the next, both characters go and the chunks are merged. (The chunks
  compared are never empty.)
\<close>

fun merge_ranges :: "str list \<Rightarrow> str list" where
  "merge_ranges [] = []"
| "merge_ranges [c] = [c]"
| "merge_ranges (c # cs) =
     (case merge_ranges cs of
        [] \<Rightarrow> [c]
      | d # ds \<Rightarrow>
          if c \<noteq> [] \<and> d \<noteq> [] \<and> last c > hd d then (butlast c @ tl d) # ds
          else c # d # ds)"

text \<open>
  The text \<open>stuff\<close> of the set, as the regular expression parser reads it: every character
  of a chunk is escaped where it must be, so it is a literal \<open>Ch\<close>; the hyphens that join
  the chunks are the only unescaped ones, \<open>Join\<close>.
\<close>

datatype catom = Ch uchar | Join

fun join_chunks :: "str list \<Rightarrow> catom list" where
  "join_chunks [] = []"
| "join_chunks [c] = map Ch c"
| "join_chunks (c # cs) = map Ch c @ [Join] @ join_chunks cs"

definition stuff_atoms :: "str \<Rightarrow> catom list" where
  "stuff_atoms stuff =
     (if 45 \<notin> set stuff then map Ch stuff
      else join_chunks (merge_ranges (close_chunks
             (range_chunks (if hd stuff = 33 then 2 else 1) [] stuff))))"

text \<open>
  The parser of a character set: an item followed by an unescaped hyphen and another item
  is a range; a hyphen with nothing before or after it is a literal. (\<open>translate\<close> has removed
  the ranges whose bounds are out of order.)
\<close>

fun atom_char :: "catom \<Rightarrow> uchar" where
  "atom_char (Ch c) = c"
| "atom_char Join = 45"

fun parse_items :: "catom list \<Rightarrow> setitem list" where
  "parse_items [] = []"
| "parse_items [this, Join] = [Lit (atom_char this), Lit 45]"
| "parse_items (this # Join # that # rest) =
     Range (atom_char this) (atom_char that) # parse_items rest"
| "parse_items (this # rest) = Lit (atom_char this) # parse_items rest"

definition class_item :: "str \<Rightarrow> re_item" where
  "class_item stuff =
     (let atoms = stuff_atoms stuff in
      if atoms = [] then NEVER
      else if atoms = [Ch 33] then ANY
      else if hd atoms = Ch 33 then CLASS True (parse_items (tl atoms))
      else CLASS False (parse_items atoms))"

text \<open>The first loop of \<open>translate\<close>: \<open>res\<close> is the list built so far, consecutive stars compressed.\<close>

fun translate_res :: "tok list \<Rightarrow> str \<Rightarrow> tok list" where
  "translate_res res [] = res"
| "translate_res res (c # p) =
     (if c = 42 then
        (if res = [] \<or> last res \<noteq> STAR then translate_res (res @ [STAR]) p
         else translate_res res p)
      else if c = 63 then translate_res (res @ [ITEM ANY]) p
      else if c = 91 then
        (case bracket_end p of
           None \<Rightarrow> translate_res (res @ [ITEM (LIT 91)]) p
         | Some j \<Rightarrow> translate_res (res @ [ITEM (class_item (take j p))]) (drop (Suc j) p))
      else translate_res (res @ [ITEM (LIT c)]) p)"

text \<open>
  The second loop of \<open>translate\<close>: the fixed pieces before the first star, then for each star
  the fixed pieces after it: an atomic group \<^verbatim>\<open>(?>.*?fixed)\<close> when another star follows,
  \<^verbatim>\<open>.*fixed\<close> at the end, \<^verbatim>\<open>.*\<close> for a final star.
\<close>

datatype piece = Fixed "re_item list" | Atomic "re_item list" | DotStar

fun is_item :: "tok \<Rightarrow> bool" where
  "is_item STAR = False"
| "is_item (ITEM _) = True"

fun items_of :: "tok list \<Rightarrow> re_item list" where
  "items_of [] = []"
| "items_of (STAR # ts) = items_of ts"
| "items_of (ITEM x # ts) = x # items_of ts"

function star_pieces :: "tok list \<Rightarrow> piece list" where
  "star_pieces [] = []"
| "star_pieces (t # inp) =
     (if inp = [] then [DotStar]
      else if dropWhile is_item inp = [] then [DotStar, Fixed (items_of (takeWhile is_item inp))]
      else Atomic (items_of (takeWhile is_item inp)) # star_pieces (dropWhile is_item inp))"
  by pat_completeness auto
termination
  by (relation "measure length") (auto simp: less_Suc_eq_le length_dropWhile_le)

definition compile_pieces :: "tok list \<Rightarrow> piece list" where
  "compile_pieces res = Fixed (items_of (takeWhile is_item res)) # star_pieces (dropWhile is_item res)"

text \<open>Matching: one item against one character.\<close>

fun in_setitem :: "uchar \<Rightarrow> setitem \<Rightarrow> bool" where
  "in_setitem c (Lit a) = (c = a)"
| "in_setitem c (Range lo hi) = (lo \<le> c \<and> c \<le> hi)"

fun item_match :: "re_item \<Rightarrow> uchar \<Rightarrow> bool" where
  "item_match ANY c = True"
| "item_match (LIT a) c = (a = c)"
| "item_match NEVER c = False"
| "item_match (CLASS neg its) c = (list_ex (in_setitem c) its \<noteq> neg)"

text \<open>A run of items at the head of the text; the rest of the text when it matches.\<close>

fun match_fixed :: "re_item list \<Rightarrow> str \<Rightarrow> str option" where
  "match_fixed [] s = Some s"
| "match_fixed (NEVER # ts) s = None"
| "match_fixed (t # ts) [] = None"
| "match_fixed (t # ts) (c # s) = (if item_match t c then match_fixed ts s else None)"

text \<open>\<^verbatim>\<open>(?>.*?fixed)\<close>: the first place where \<open>fixed\<close> matches, with no way back.\<close>

fun find_first :: "re_item list \<Rightarrow> str \<Rightarrow> str option" where
  "find_first fixed [] = match_fixed fixed []"
| "find_first fixed (c # s) =
     (case match_fixed fixed (c # s) of
        Some r \<Rightarrow> Some r
      | None \<Rightarrow> find_first fixed s)"

text \<open>The pieces against the whole text (\<^verbatim>\<open>re.match\<close> of the expression, closed by \<^verbatim>\<open>\Z\<close>).\<close>

fun re_match :: "piece list \<Rightarrow> str \<Rightarrow> bool" where
  "re_match [] s = (s = [])"
| "re_match (Fixed f # ps) s =
     (case match_fixed f s of None \<Rightarrow> False | Some r \<Rightarrow> re_match ps r)"
| "re_match (Atomic f # ps) s =
     (case find_first f s of None \<Rightarrow> False | Some r \<Rightarrow> re_match ps r)"
| "re_match (DotStar # ps) [] = re_match ps []"
| "re_match (DotStar # ps) (c # s) = (re_match ps (c # s) \<or> re_match (DotStar # ps) s)"

definition fnmatchcase :: "str \<Rightarrow> str \<Rightarrow> bool" where
  "fnmatchcase name pat = re_match (compile_pieces (translate_res [] pat)) name"

text \<open>\<^verbatim>\<open>os.path.normcase\<close> is the identity of posixpath.\<close>

definition normcase :: "str \<Rightarrow> str" where
  "normcase s = s"

definition fnmatch :: "str \<Rightarrow> str \<Rightarrow> bool" where
  "fnmatch name pat = fnmatchcase (normcase name) (normcase pat)"

section \<open>textwrap\<close>

text \<open>
  The regular expressions of \<open>textwrap\<close> use the classes \<^verbatim>\<open>\w\<close> and \<^verbatim>\<open>\d\<close> of the
  Unicode database: an alphanumeric character or the underscore, and a decimal digit. The
  two tables are parameters of the model.
\<close>

record unicode_db =
  uni_isalnum :: "uchar \<Rightarrow> bool"
  uni_isdecimal :: "uchar \<Rightarrow> bool"

definition re_w :: "unicode_db \<Rightarrow> uchar \<Rightarrow> bool" where
  "re_w db c \<longleftrightarrow> uni_isalnum db c \<or> c = 95"

text \<open>\<^verbatim>\<open>_whitespace = '\t\n\x0b\x0c\r '\<close>\<close>

definition is_ws :: "uchar \<Rightarrow> bool" where
  "is_ws c \<longleftrightarrow> c = 9 \<or> c = 10 \<or> c = 11 \<or> c = 12 \<or> c = 13 \<or> c = 32"

text \<open>\<^verbatim>\<open>word_punct = [\w!"'&.,?]\<close> and \<^verbatim>\<open>letter = [^\d\W]\<close>\<close>

definition word_punct :: "unicode_db \<Rightarrow> uchar \<Rightarrow> bool" where
  "word_punct db c \<longleftrightarrow>
     re_w db c \<or> c = 33 \<or> c = 34 \<or> c = 39 \<or> c = 38 \<or> c = 46 \<or> c = 44 \<or> c = 63"

definition letter :: "unicode_db \<Rightarrow> uchar \<Rightarrow> bool" where
  "letter db c \<longleftrightarrow> re_w db c \<and> \<not> uni_isdecimal db c"

text \<open>\<^verbatim>\<open>text.expandtabs(tabsize)\<close>; \<open>col\<close> is the column, reset by a line break.\<close>

fun expandtabs :: "nat \<Rightarrow> nat \<Rightarrow> str \<Rightarrow> str" where
  "expandtabs tabsize col [] = []"
| "expandtabs tabsize col (c # cs) =
     (if c = 9 then
        (if tabsize > 0 then
           replicate (tabsize - col mod tabsize) 32
           @ expandtabs tabsize (col + (tabsize - col mod tabsize)) cs
         else expandtabs tabsize col cs)
      else c # expandtabs tabsize (if c = 10 \<or> c = 13 then 0 else col + 1) cs)"

text \<open>\<open>_munge_whitespace\<close>: tabs expanded (tabsize 8), every whitespace character a space.\<close>

definition munge_whitespace :: "str \<Rightarrow> str" where
  "munge_whitespace text = map (\<lambda>c. if is_ws c then 32 else c) (expandtabs 8 0 text)"

text \<open>
  \<open>wordsep_re\<close>. \<^verbatim>\<open>-{2,}\w\<close> at the head of \<open>aft\<close>: the number of hyphens it takes, the
  longest run first.
\<close>

definition emdash_len :: "unicode_db \<Rightarrow> str \<Rightarrow> nat option" where
  "emdash_len db aft =
     (let hy = length (takeWhile (\<lambda>c. c = 45) aft) in
      if 2 \<le> hy \<and> hy < length aft \<and> re_w db (aft ! hy) then Some hy
      else if 3 \<le> hy \<and> re_w db 45 then Some (hy - 1)
      else None)"

text \<open>
  The hyphen of a hyphenated word. \<open>bef\<close> is the text before the hyphen, reversed:
  \<^verbatim>\<open>(?<=letter{2}-)\<close> or \<^verbatim>\<open>(?<=letter-letter-)\<close>. \<open>r\<close> is the text after it:
  \<^verbatim>\<open>(?=letter -? letter)\<close>.
\<close>

definition hyphen_behind :: "unicode_db \<Rightarrow> str \<Rightarrow> bool" where
  "hyphen_behind db bef \<longleftrightarrow>
     (case bef of a # b # _ \<Rightarrow> letter db a \<and> letter db b | _ \<Rightarrow> False) \<or>
     (case bef of a # b # c # _ \<Rightarrow> letter db a \<and> b = 45 \<and> letter db c | _ \<Rightarrow> False)"

definition hyphen_ahead :: "unicode_db \<Rightarrow> str \<Rightarrow> bool" where
  "hyphen_ahead db r \<longleftrightarrow>
     (case r of
        [] \<Rightarrow> False
      | a # r' \<Rightarrow>
          letter db a \<and>
          ((case r' of h # b # _ \<Rightarrow> h = 45 \<and> letter db b | _ \<Rightarrow> False) \<or>
           (case r' of b # _ \<Rightarrow> letter db b | [] \<Rightarrow> False)))"

text \<open>
  The third alternative, a word: \<^verbatim>\<open>nws+?\<close> takes as few characters as it can, and after
  each it tries, in this order, the hyphen of a hyphenated word (taken into the chunk), the
  end of the word (whitespace or the end of the text), and an em-dash ahead. \<open>bef\<close> is the
  text before the position, reversed; the result counts the characters still to take.
\<close>

fun word_end :: "unicode_db \<Rightarrow> str \<Rightarrow> str \<Rightarrow> nat" where
  "word_end db bef [] = 0"
| "word_end db bef (c # r) =
     (if c = 45 \<and> hyphen_behind db bef \<and> hyphen_ahead db r then 1
      else if is_ws c then 0
      else if bef \<noteq> [] \<and> word_punct db (hd bef) \<and> emdash_len db (c # r) \<noteq> None then 0
      else Suc (word_end db (c # bef) r))"

text \<open>
  One match of \<open>wordsep_re\<close> at the character \<open>c\<close>, the text \<open>r\<close> after it: a run of
  whitespace, an em-dash between words, or a word. The result counts the characters of the
  chunk after \<open>c\<close>.
\<close>

definition chunk_more :: "unicode_db \<Rightarrow> str \<Rightarrow> uchar \<Rightarrow> str \<Rightarrow> nat" where
  "chunk_more db bef c r =
     (if is_ws c then length (takeWhile is_ws r)
      else if bef \<noteq> [] \<and> word_punct db (hd bef) \<and> emdash_len db (c # r) \<noteq> None
        then the (emdash_len db (c # r)) - 1
      else word_end db (c # bef) r)"

text \<open>
  \<open>_split\<close>: \<^verbatim>\<open>wordsep_re.split(text)\<close> without the empty strings. The expression matches
  at every position of the text, so the chunks are the successive matches.
\<close>

fun wordsep_split :: "unicode_db \<Rightarrow> str \<Rightarrow> str \<Rightarrow> str list" where
  "wordsep_split db bef [] = []"
| "wordsep_split db bef (c # r) =
     (c # take (chunk_more db bef c r) r)
     # wordsep_split db (rev (take (chunk_more db bef c r) r) @ c # bef)
         (drop (chunk_more db bef c r) r)"

definition split_chunks :: "unicode_db \<Rightarrow> str \<Rightarrow> str list" where
  "split_chunks db text = wordsep_split db [] (munge_whitespace text)"

text \<open>
  \<open>_wrap_chunks\<close>, with the attributes \<open>fill\<close> leaves at their defaults: no indent,
  \<open>drop_whitespace\<close>, \<open>break_long_words\<close> and \<open>break_on_hyphens\<close> true, no \<open>max_lines\<close>. The
  chunks are taken from the front of the list (the source reverses the list and pops from
  its end). The inner loop: the chunks that fit on the current line.
\<close>

fun take_fitting :: "nat \<Rightarrow> nat \<Rightarrow> str list \<Rightarrow> str list \<times> str list" where
  "take_fitting width cur_len [] = ([], [])"
| "take_fitting width cur_len (c # cs) =
     (if cur_len + length c \<le> width then
        (case take_fitting width (cur_len + length c) cs of (line, rest) \<Rightarrow> (c # line, rest))
      else ([], c # cs))"

text \<open>\<^verbatim>\<open>chunk.rfind('-', 0, space_left)\<close>\<close>

definition rfind_hyphen :: "str \<Rightarrow> nat \<Rightarrow> nat option" where
  "rfind_hyphen chunk space_left =
     (case filter (\<lambda>i. chunk ! i = 45) (rev [0..<min space_left (length chunk)]) of
        [] \<Rightarrow> None
      | i # _ \<Rightarrow> Some i)"

text \<open>
  \<open>_handle_long_word\<close>: the number \<open>end\<close> of characters of the chunk that go on the current
  line: what is left of the line, or up to the last hyphen there when non-hyphens precede it.
\<close>

definition long_word_end :: "nat \<Rightarrow> nat \<Rightarrow> str \<Rightarrow> nat" where
  "long_word_end width cur_len chunk =
     (let space_left = (if width < 1 then 1 else width - cur_len) in
      if length chunk > space_left then
        (case rfind_hyphen chunk space_left of
           None \<Rightarrow> space_left
         | Some hyphen \<Rightarrow>
             if hyphen > 0 \<and> list_ex (\<lambda>c. c \<noteq> 45) (take hyphen chunk) then hyphen + 1
             else space_left)
      else space_left)"

text \<open>
  One pass of the outer loop, in its steps. A whitespace chunk at the start of a line is
  dropped, unless no line has been made yet.
\<close>

definition drop_leading :: "bool \<Rightarrow> str list \<Rightarrow> str list" where
  "drop_leading started chunks =
     (if strip (hd chunks) = [] \<and> started then tl chunks else chunks)"

text \<open>
  After the inner loop, with \<open>cur_line\<close> and the chunks left: a next chunk too long for any
  line is broken by \<open>_handle_long_word\<close>.
\<close>

definition handle_long_word :: "nat \<Rightarrow> str list \<times> str list \<Rightarrow> str list \<times> str list" where
  "handle_long_word width fitted =
     (case fitted of
        (cur_line, []) \<Rightarrow> (cur_line, [])
      | (cur_line, chunk # others) \<Rightarrow>
          if length chunk > width then
            (case long_word_end width (sum_list (map length cur_line)) chunk of
               end \<Rightarrow> (cur_line @ [take end chunk], drop end chunk # others))
          else (cur_line, chunk # others))"

text \<open>A whitespace chunk at the end of the line is dropped.\<close>

definition drop_trailing :: "str list \<Rightarrow> str list" where
  "drop_trailing cur_line =
     (if cur_line \<noteq> [] \<and> strip (last cur_line) = [] then butlast cur_line else cur_line)"

text \<open>The chunks of the next line and the chunks left.\<close>

definition next_line :: "nat \<Rightarrow> bool \<Rightarrow> str list \<Rightarrow> str list \<times> str list" where
  "next_line width started chunks =
     (case handle_long_word width (take_fitting width 0 (drop_leading started chunks)) of
        (cur_line, rest) \<Rightarrow> (drop_trailing cur_line, rest))"

text \<open>
  The outer loop ends: each pass takes a chunk off the list or characters off its first
  chunk.
\<close>

definition chunks_measure :: "str list \<Rightarrow> nat" where
  "chunks_measure chunks = sum_list (map length chunks) + length chunks"

lemma take_fitting_append: "take_fitting w n cs = (l, r) \<Longrightarrow> cs = l @ r"
  by (induction cs arbitrary: n l r) (auto split: if_splits prod.splits)

lemma take_fitting_stuck: "take_fitting w n cs = ([], c # r) \<Longrightarrow> w < n + length c"
  by (cases cs) (auto split: if_splits prod.splits)

lemma long_word_end_pos: "0 < long_word_end w 0 chunk"
  by (auto simp: long_word_end_def Let_def split: option.splits)

lemma next_line_measure:
  assumes "next_line w started chunks = (l, rest)" "chunks \<noteq> []"
  shows "chunks_measure rest < chunks_measure chunks"
proof -
  define chunks1 where "chunks1 = drop_leading started chunks"
  obtain cur_line chunks2 where tf: "take_fitting w 0 chunks1 = (cur_line, chunks2)"
    by (cases "take_fitting w 0 chunks1")
  have app: "chunks1 = cur_line @ chunks2" using tf by (rule take_fitting_append)
  define long where "long = (chunks2 \<noteq> [] \<and> length (hd chunks2) > w)"
  define e where "e = long_word_end w (sum_list (map length cur_line)) (hd chunks2)"
  have "snd (next_line w started chunks) = (if long then drop e (hd chunks2) # tl chunks2 else chunks2)"
    unfolding next_line_def handle_long_word_def chunks1_def[symmetric] tf long_def e_def
    by (simp split: list.splits prod.splits)
  then have rest: "rest = (if long then drop e (hd chunks2) # tl chunks2 else chunks2)"
    using assms(1) by simp
  have m1: "chunks_measure chunks1 \<le> chunks_measure chunks"
    using assms(2) by (cases chunks) (auto simp: chunks1_def drop_leading_def chunks_measure_def)
  have m2: "chunks_measure chunks2 \<le> chunks_measure chunks1"
    by (simp add: app chunks_measure_def)
  have m3: "chunks_measure rest \<le> chunks_measure chunks2"
    by (cases chunks2) (auto simp: rest chunks_measure_def long_def)
  show ?thesis
  proof (cases "chunks1 = chunks")
    case False
    then have "chunks1 = tl chunks" by (auto simp: chunks1_def drop_leading_def split: if_splits)
    then have "chunks_measure chunks1 < chunks_measure chunks"
      using assms(2) by (cases chunks) (auto simp: chunks_measure_def)
    with m2 m3 show ?thesis by linarith
  next
    case same: True
    show ?thesis
    proof (cases "cur_line = []")
      case False
      then have "chunks_measure chunks2 < chunks_measure chunks1"
        by (cases cur_line) (auto simp: app chunks_measure_def)
      with m1 m3 show ?thesis by linarith
    next
      case True
      with app same assms(2) obtain c r where c: "chunks2 = c # r" by (cases chunks2) auto
      with tf True have "w < length c" using take_fitting_stuck by fastforce
      then have lg: long by (simp add: long_def c)
      have "0 < e" using True by (simp add: e_def long_word_end_pos)
      with \<open>w < length c\<close> have "chunks_measure rest < chunks_measure chunks2"
        by (auto simp: rest lg c chunks_measure_def)
      with m1 m2 show ?thesis by linarith
    qed
  qed
qed

text \<open>The outer loop of \<open>_wrap_chunks\<close>; \<open>lines\<close> are the lines made so far.\<close>

function wrap_lines :: "nat \<Rightarrow> str list \<Rightarrow> str list \<Rightarrow> str list" where
  "wrap_lines width lines [] = lines"
| "wrap_lines width lines (c # cs) =
     (case next_line width (lines \<noteq> []) (c # cs) of
        (cur_line, rest) \<Rightarrow>
          wrap_lines width (if cur_line \<noteq> [] then lines @ [concat cur_line] else lines) rest)"
  by pat_completeness auto
termination
  by (relation "measure (\<lambda>(w, lines, chunks). chunks_measure chunks)")
     (auto dest: next_line_measure[OF sym])

text \<open>
  \<open>textwrap.wrap(text, width)\<close> and \<open>textwrap.fill(text, width)\<close>, for a positive width (the
  library raises \<open>ValueError\<close> for any other; \<open>print_tree\<close> passes 60).
\<close>

definition wrap :: "unicode_db \<Rightarrow> str \<Rightarrow> nat \<Rightarrow> str list" where
  "wrap db text width = wrap_lines width [] (split_chunks db text)"

definition fill :: "unicode_db \<Rightarrow> str \<Rightarrow> nat \<Rightarrow> str" where
  "fill db text width = join_nl (wrap db text width)"

section \<open>Reading a file as UTF-8 text\<close>

text \<open>
  \<^verbatim>\<open>open(path, 'r', encoding='utf-8')\<close> gives a text stream whose decoder is the incremental
  UTF-8 decoder with \<^verbatim>\<open>errors='strict'\<close>, inside the decoder of universal newlines. A byte is
  a number below 256.
\<close>

type_synonym byte = nat

text \<open>
  The decoder of one character (CPython, \<^verbatim>\<open>utf8_decode\<close>): at the head of \<open>s\<close>, which is not
  empty, a character and the number of its bytes, or the end of the data inside a sequence,
  or an invalid start byte, or an invalid continuation byte after \<open>k\<close> bytes of the sequence.
\<close>

datatype utf8_step = Char uchar nat | Incomplete | InvalidStart | InvalidContinuation nat

definition is_continuation_byte :: "byte \<Rightarrow> bool" where
  "is_continuation_byte ch \<longleftrightarrow> 128 \<le> ch \<and> ch < 192"

definition utf8_next :: "byte list \<Rightarrow> utf8_step" where
  "utf8_next s =
     (case s of
        [] \<Rightarrow> Incomplete
      | ch # _ \<Rightarrow>
          if ch < 128 then Char ch 1
          else if ch < 224 then
            (if ch < 194 then InvalidStart
             else if length s < 2 then Incomplete
             else if \<not> is_continuation_byte (s ! 1) then InvalidContinuation 1
             else Char (push_bit 6 ch + s ! 1 - (push_bit 6 192 + 128)) 2)
          else if ch < 240 then
            (if length s < 3 then
               (if length s < 2 then Incomplete
                else if \<not> is_continuation_byte (s ! 1)
                        \<or> (if s ! 1 < 160 then ch = 224 else ch = 237)
                     then InvalidContinuation 1
                else Incomplete)
             else if \<not> is_continuation_byte (s ! 1) then InvalidContinuation 1
             else if ch = 224 \<and> s ! 1 < 160 then InvalidContinuation 1
             else if ch = 237 \<and> 160 \<le> s ! 1 then InvalidContinuation 1
             else if \<not> is_continuation_byte (s ! 2) then InvalidContinuation 2
             else Char (push_bit 12 ch + push_bit 6 (s ! 1) + s ! 2
                          - (push_bit 12 224 + push_bit 6 128 + 128)) 3)
          else if ch < 245 then
            (if length s < 4 then
               (if length s < 2 then Incomplete
                else if \<not> is_continuation_byte (s ! 1)
                        \<or> (if s ! 1 < 144 then ch = 240 else ch = 244)
                     then InvalidContinuation 1
                else if length s < 3 then Incomplete
                else if \<not> is_continuation_byte (s ! 2) then InvalidContinuation 2
                else Incomplete)
             else if \<not> is_continuation_byte (s ! 1) then InvalidContinuation 1
             else if ch = 240 \<and> s ! 1 < 144 then InvalidContinuation 1
             else if ch = 244 \<and> 144 \<le> s ! 1 then InvalidContinuation 1
             else if \<not> is_continuation_byte (s ! 2) then InvalidContinuation 2
             else if \<not> is_continuation_byte (s ! 3) then InvalidContinuation 3
             else Char (push_bit 18 ch + push_bit 12 (s ! 1) + push_bit 6 (s ! 2) + s ! 3
                          - (push_bit 18 240 + push_bit 12 128 + push_bit 6 128 + 128)) 4)
          else InvalidStart)"

text \<open>Numbers in the message of the exception: \<^verbatim>\<open>%zd\<close> and \<^verbatim>\<open>0x%02x\<close>.\<close>

fun decimal :: "nat \<Rightarrow> str" where
  "decimal n = (if n < 10 then [48 + n] else decimal (n div 10) @ [48 + n mod 10])"

declare decimal.simps [simp del]

definition hex_digit :: "nat \<Rightarrow> uchar" where
  "hex_digit d = (if d < 10 then 48 + d else 87 + d)"

definition hex2 :: "byte \<Rightarrow> str" where
  "hex2 b = [hex_digit (b div 16), hex_digit (b mod 16)]"

text \<open>
  \<^verbatim>\<open>str(e)\<close> for the \<open>UnicodeDecodeError\<close> on the bytes from \<open>start\<close> to \<open>end\<close> of \<open>data\<close>.
\<close>

definition codec_cant_decode :: str where
  "codec_cant_decode = [39] @ ascii ''utf-8'' @ [39] @ ascii '' codec can'' @ [39] @ ascii ''t decode ''"

definition decode_error :: "byte list \<Rightarrow> nat \<Rightarrow> nat \<Rightarrow> string \<Rightarrow> pyexn" where
  "decode_error data start end reason =
     PyExn UnicodeDecodeError
       (if start < length data \<and> end = start + 1
        then codec_cant_decode @ ascii ''byte 0x'' @ hex2 (data ! start)
               @ ascii '' in position '' @ decimal start @ ascii '': '' @ ascii reason
        else codec_cant_decode @ ascii ''bytes in position '' @ decimal start
               @ ascii ''-'' @ decimal (end - 1) @ ascii '': '' @ ascii reason)"

text \<open>
  \<^verbatim>\<open>codecs.utf_8_decode(data, 'strict', final)\<close>, from position \<open>pos\<close> of \<open>data\<close> with \<open>chars\<close>
  decoded so far: the exception, or the characters and the number of bytes consumed. When
  \<open>final\<close> is false an incomplete sequence at the end is left for the next call, and so are
  the first two bytes of a surrogate.
\<close>

function utf8_loop :: "byte list \<Rightarrow> nat \<Rightarrow> bool \<Rightarrow> str \<Rightarrow> pyexn + str \<times> nat" where
  "utf8_loop data pos final chars =
     (if length data \<le> pos then Inr (chars, pos)
      else case utf8_next (drop pos data) of
        Char c k \<Rightarrow> if k = 0 then Inr (chars, pos) else utf8_loop data (pos + k) final (chars @ [c])
      | Incomplete \<Rightarrow>
          if final then Inl (decode_error data pos (length data) ''unexpected end of data'')
          else Inr (chars, pos)
      | InvalidStart \<Rightarrow> Inl (decode_error data pos (pos + 1) ''invalid start byte'')
      | InvalidContinuation k \<Rightarrow>
          if \<not> final \<and> k = 1 \<and> data ! pos = 237 \<and> length data - pos = 2
             \<and> 160 \<le> data ! (pos + 1) \<and> data ! (pos + 1) \<le> 191
          then Inr (chars, pos)
          else Inl (decode_error data pos (pos + k) ''invalid continuation byte''))"
  by pat_completeness auto
termination
  by (relation "measure (\<lambda>(data, pos, final, chars). length data - pos)") auto

declare utf8_loop.simps [simp del]

definition utf_8_decode :: "byte list \<Rightarrow> bool \<Rightarrow> pyexn + str \<times> nat" where
  "utf_8_decode data final = utf8_loop data 0 final []"

text \<open>
  The state of the decoder of the stream: the bytes kept by the UTF-8 decoder
  (\<^verbatim>\<open>BufferedIncrementalDecoder.buffer\<close>) and the flag of the newline decoder.
\<close>

record decoder =
  buffer :: "byte list"
  pendingcr :: bool

text \<open>\<^verbatim>\<open>output.replace("\r\n", "\n").replace("\r", "\n")\<close>.\<close>

fun translate_newlines :: "str \<Rightarrow> str" where
  "translate_newlines [] = []"
| "translate_newlines [c] = (if c = 13 then [10] else [c])"
| "translate_newlines (c # d # s) =
     (if c = 13 \<and> d = 10 then 10 # translate_newlines s
      else if c = 13 then 10 # translate_newlines (d # s)
      else c # translate_newlines (d # s))"

text \<open>
  \<^verbatim>\<open>IncrementalNewlineDecoder.decode(input, final)\<close> around
  \<^verbatim>\<open>BufferedIncrementalDecoder.decode\<close>: the exception, or the output and the new state.
\<close>

definition decode :: "decoder \<Rightarrow> byte list \<Rightarrow> bool \<Rightarrow> pyexn + str \<times> decoder" where
  "decode dec input final =
     (let data = buffer dec @ input in
      case utf_8_decode data final of
        Inl e \<Rightarrow> Inl e
      | Inr (result, consumed) \<Rightarrow>
          (let output = (if pendingcr dec \<and> (result \<noteq> [] \<or> final) then 13 # result else result);
               pending = (if pendingcr dec \<and> (result \<noteq> [] \<or> final) then False else pendingcr dec);
               retain = (output \<noteq> [] \<and> last output = 13 \<and> \<not> final)
           in Inr (translate_newlines (if retain then butlast output else output),
                   \<lparr>buffer = drop consumed data, pendingcr = (if retain then True else pending)\<rparr>)))"

text \<open>
  \<^verbatim>\<open>TextIOWrapper.read(size)\<close> on a stream just opened. \<open>reads\<close> holds what the successive
  calls of \<^verbatim>\<open>buffer.read1\<close> give, an exception or bytes; after the last of them the file is
  at its end and every call gives no byte. A chunk with no byte is decoded with \<open>final\<close>
  true. The loop stops when it has \<open>sz\<close> characters, or after a chunk that had no byte and
  gave no character.
\<close>

fun read_loop :: "(pyexn + byte list) list \<Rightarrow> nat \<Rightarrow> decoder \<Rightarrow> str \<Rightarrow> pyexn + str" where
  "read_loop [] sz dec result =
     (if length result < sz then
        (case decode dec [] True of
           Inl e \<Rightarrow> Inl e
         | Inr (decoded_chars, dec') \<Rightarrow> Inr (result @ take (sz - length result) decoded_chars))
      else Inr result)"
| "read_loop (r # reads) sz dec result =
     (if length result < sz then
        (case r of
           Inl e \<Rightarrow> Inl e
         | Inr input_chunk \<Rightarrow>
             (case decode dec input_chunk (input_chunk = []) of
                Inl e \<Rightarrow> Inl e
              | Inr (decoded_chars, dec') \<Rightarrow>
                  if input_chunk = [] \<and> decoded_chars = [] then Inr result
                  else read_loop reads sz dec' (result @ take (sz - length result) decoded_chars)))
      else Inr result)"

section \<open>The file system, the summarizer and the console\<close>

text \<open>
  What the program sees at a path. A \<open>File\<close> is any path for which \<^verbatim>\<open>os.path.isdir\<close> is
  false; it carries what opening it gives: the exception raised, or what the reads of the
  open file give. A \<open>Dir\<close> is a directory; it carries what \<^verbatim>\<open>os.listdir\<close> gives: the
  exception raised, or the names in the order the system returns them, each with what is at
  that path.
\<close>

datatype node = File "pyexn + (pyexn + byte list) list" | Dir "pyexn + (str \<times> node) list"

text \<open>
  \<^verbatim>\<open>with open(path, 'r', encoding='utf-8') as f: content = f.read(max_chars)\<close>: the
  exception raised, or at most \<open>max_chars\<close> characters of the text.
\<close>

definition read_text :: "pyexn + (pyexn + byte list) list \<Rightarrow> nat \<Rightarrow> pyexn + str" where
  "read_text opened max_chars =
     (case opened of
        Inl e \<Rightarrow> Inl e
      | Inr reads \<Rightarrow> read_loop reads max_chars \<lparr>buffer = [], pendingcr = False\<rparr> [])"

text \<open>
  The program writes to standard output and calls the summarizer: \<open>stdout\<close> holds the text
  of each \<^verbatim>\<open>print\<close> call that returned, in order, \<open>requests\<close> the prompt of each call of
  the client.
\<close>

record state =
  stdout :: "str list"
  requests :: "str list"

text \<open>
  \<^verbatim>\<open>client.responses.create(model="gpt-4.1", input=prompt).output_text\<close>: the text, or the
  exception raised. The service is outside the program: its answer may depend on the
  prompts it has received before.
\<close>

type_synonym client = "str list \<Rightarrow> str \<Rightarrow> pyexn + str"

text \<open>
  \<^verbatim>\<open>print(text)\<close> raises when standard output refuses the text, for instance
  \<open>UnicodeEncodeError\<close> for a character its encoding does not have (a file name with a
  surrogate escape). Standard output is outside the program: the console tells, from the
  texts printed so far and the text to print, the exception raised, if any.
\<close>

type_synonym console = "str list \<Rightarrow> str \<Rightarrow> pyexn option"

record env =
  env_db :: unicode_db
  env_client :: client
  env_console :: console

text \<open>One \<^verbatim>\<open>print\<close> call: the exception it raises, if any, and the state.\<close>

definition print_line :: "console \<Rightarrow> str \<Rightarrow> state \<Rightarrow> pyexn option \<times> state" where
  "print_line console text st =
     (case console (stdout st) text of
        Some e \<Rightarrow> (Some e, st)
      | None \<Rightarrow> (None, st\<lparr>stdout := stdout st @ [text]\<rparr>))"

text \<open>The string literals of the source, as code points.\<close>

definition read_error_head :: str where
  "read_error_head = [91, 35501, 12415, 21462, 12426, 12456, 12521, 12540, 58, 32]"

definition summary_error_head :: str where
  "summary_error_head = [91, 35201, 32004, 12456, 12521, 12540, 58, 32]"

definition no_access_head :: str where
  "no_access_head = [91, 12450, 12463, 12475, 12473, 27177, 38480, 12394, 12375, 58, 32]"

definition prompt_head :: str where
  "prompt_head = [27425, 12398, 12501, 12449, 12452, 12523, 12398, 20869, 23481, 12434, 30701,
     12367, 35201, 32004, 12375, 12390, 12367, 12384, 12373, 12356, 65288, 26085, 26412, 35486,
     12391, 12289, 49, 12316, 50, 25991, 31243, 24230, 65289, 58, 10, 96, 96, 96, 10]"

definition prompt_tail :: str where
  "prompt_tail = [10, 96, 96, 96]"

definition branch_last :: str where
  "branch_last = [9492, 9472, 9472, 32]"

definition branch_mid :: str where
  "branch_mid = [9500, 9472, 9472, 32]"

definition prefix_bar :: str where
  "prefix_bar = [9474, 32, 32, 32]"

definition prefix_blank :: str where
  "prefix_blank = [32, 32, 32, 32]"

section \<open>summarize_file\<close>

text \<open>
  \<open>opened\<close> is what is at the path. Both \<^verbatim>\<open>try\<close> blocks catch \<^verbatim>\<open>Exception\<close>; the function
  returns a string in every case.
\<close>

definition summarize_file :: "client \<Rightarrow> pyexn + (pyexn + byte list) list \<Rightarrow> nat \<Rightarrow> state \<Rightarrow> str \<times> state" where
  "summarize_file client opened max_chars st =
     (case read_text opened max_chars of
        Inl e \<Rightarrow> (read_error_head @ exn_msg e @ [93], st)
      | Inr content \<Rightarrow>
          (let prompt = prompt_head @ content @ prompt_tail;
               st' = st\<lparr>requests := requests st @ [prompt]\<rparr>
           in case client (requests st) prompt of
                Inl e \<Rightarrow> (summary_error_head @ exn_msg e @ [93], st')
              | Inr output_text \<Rightarrow> (strip output_text, st')))"

section \<open>print_tree\<close>

text \<open>The filter loop: \<open>filtered\<close> collects the entries that match no pattern.\<close>

fun filter_loop :: "str list \<Rightarrow> (str \<times> node) list \<Rightarrow> (str \<times> node) list \<Rightarrow> (str \<times> node) list" where
  "filter_loop pats filtered [] = filtered"
| "filter_loop pats filtered ((name, nd) # entries) =
     (if list_ex (\<lambda>pat. fnmatch name pat) pats then filter_loop pats filtered entries
      else filter_loop pats (filtered @ [(name, nd)]) entries)"

text \<open>
  \<^verbatim>\<open>entries = sorted(os.listdir(path))\<close>, then the filter when \<open>ignore_patterns\<close> is true
  (neither \<open>None\<close> nor empty). Each name stays paired with what is at its path.
\<close>

definition surviving :: "str list option \<Rightarrow> (str \<times> node) list \<Rightarrow> (str \<times> node) list" where
  "surviving ignore_patterns listing =
     (let entries = sort_key fst listing in
      case ignore_patterns of
        None \<Rightarrow> entries
      | Some pats \<Rightarrow> if pats = [] then entries else filter_loop pats [] entries)"

text \<open>
  The lines of a file entry after the first: the loop over \<^verbatim>\<open>lines[1:]\<close>. It ends at the
  first \<^verbatim>\<open>print\<close> that raises.
\<close>

fun print_rest :: "console \<Rightarrow> str \<Rightarrow> str \<Rightarrow> str list \<Rightarrow> state \<Rightarrow> pyexn option \<times> state" where
  "print_rest console prefix branch [] st = (None, st)"
| "print_rest console prefix branch (line # lines) st =
     (case print_line console (prefix @ replicate (length branch) 32 @ [32, 32] @ line) st of
        (Some e, st') \<Rightarrow> (Some e, st')
      | (None, st') \<Rightarrow> print_rest console prefix branch lines st')"

definition entries_weight :: "(str \<times> node) list \<Rightarrow> nat" where
  "entries_weight es = sum_list (map (\<lambda>e. Suc (size (snd e))) es)"

text \<open>The weight of a listing bounds the recursion.\<close>

lemma entries_weight_insort: "entries_weight (insort_key fst x xs) = Suc (size (snd x)) + entries_weight xs"
  by (induction xs) (auto simp: entries_weight_def)

lemma entries_weight_sort: "entries_weight (sort_key fst es) = entries_weight es"
  by (induction es) (auto simp: entries_weight_insort, simp add: entries_weight_def)

lemma entries_weight_filter_loop:
  "entries_weight (filter_loop pats acc es) \<le> entries_weight acc + entries_weight es"
  by (induction pats acc es rule: filter_loop.induct) (auto simp: entries_weight_def)

lemma entries_weight_surviving: "entries_weight (surviving pats es) \<le> entries_weight es"
  using entries_weight_filter_loop[of _ "[]" "sort_key fst es"]
  by (auto simp: surviving_def Let_def entries_weight_sort split: option.splits) (simp add: entries_weight_def)

lemma entries_weight_size: "entries_weight es \<le> size_list (size_prod (\<lambda>x. 0) size) es"
  by (induction es) (auto simp: entries_weight_def)

lemma entries_weight_cons: "entries_weight ((name, nd) # rest) = Suc (size nd) + entries_weight rest"
  by (simp add: entries_weight_def)

lemma listing_weight:
  "(case listing of Inl e \<Rightarrow> 0 | Inr es \<Rightarrow> 2 * entries_weight es + 2)
     < 2 * size_sum (\<lambda>x. 0) (size_list (size_prod (\<lambda>x. 0) size)) listing + 5"
  using entries_weight_size[of "projr listing"] by (cases listing) auto

text \<open>
  \<open>print_tree\<close> takes what \<^verbatim>\<open>os.listdir(path)\<close> gives. Its result is the exception that
  leaves it, if any, and the state. \<open>print_entries\<close> is the loop over \<open>entries\<close>: \<open>n\<close> is
  \<^verbatim>\<open>len(entries)\<close>, \<open>index\<close> the index of the first entry of the list still to do. An
  exception raised by \<^verbatim>\<open>print\<close> is caught nowhere.
\<close>

function print_tree :: "env \<Rightarrow> pyexn + (str \<times> node) list \<Rightarrow> str \<Rightarrow> str \<Rightarrow> str list option \<Rightarrow> state \<Rightarrow> pyexn option \<times> state"
and print_entries :: "env \<Rightarrow> str \<Rightarrow> str \<Rightarrow> str list option \<Rightarrow> nat \<Rightarrow> nat \<Rightarrow> (str \<times> node) list \<Rightarrow> state \<Rightarrow> pyexn option \<times> state"
where
  "print_tree env (Inl e) path prefix ignore_patterns st =
     (if exn_cls e = PermissionError
      then print_line (env_console env) (prefix @ no_access_head @ path @ [93]) st
      else (Some e, st))"
| "print_tree env (Inr listing) path prefix ignore_patterns st =
     (let entries = surviving ignore_patterns listing
      in print_entries env path prefix ignore_patterns (length entries) 0 entries st)"
| "print_entries env path prefix ignore_patterns n index [] st = (None, st)"
| "print_entries env path prefix ignore_patterns n index ((name, nd) # rest) st =
     (let full = path_join path name;
          is_last = (int index = int n - 1);
          branch = (if is_last then branch_last else branch_mid)
      in case nd of
           Dir listing \<Rightarrow>
             (case print_line (env_console env) (prefix @ branch @ name @ [47]) st of
                (Some e, st0) \<Rightarrow> (Some e, st0)
              | (None, st0) \<Rightarrow>
                  (case print_tree env listing full
                          (prefix @ (if is_last then prefix_blank else prefix_bar))
                          ignore_patterns st0 of
                     (Some e, st') \<Rightarrow> (Some e, st')
                   | (None, st') \<Rightarrow>
                       print_entries env path prefix ignore_patterns n (Suc index) rest st'))
         | File opened \<Rightarrow>
             (case summarize_file (env_client env) opened 5000 st of
                (summary, st1) \<Rightarrow>
                  (let wrapped = fill (env_db env) summary 60;
                       lines = split_nl wrapped
                   in case print_line (env_console env)
                             (prefix @ branch @ name @ [32, 45, 32] @ hd lines) st1 of
                        (Some e, st2) \<Rightarrow> (Some e, st2)
                      | (None, st2) \<Rightarrow>
                          (case print_rest (env_console env) prefix branch (tl lines) st2 of
                             (Some e, st3) \<Rightarrow> (Some e, st3)
                           | (None, st3) \<Rightarrow>
                               print_entries env path prefix ignore_patterns n (Suc index)
                                 rest st3))))"
  by pat_completeness auto
termination
  apply (relation "measure (\<lambda>x. case x of
          Inl (env, listing, path, prefix, pats, st) \<Rightarrow>
            (case listing of Inl e \<Rightarrow> 0 | Inr es \<Rightarrow> 2 * entries_weight es + 2)
        | Inr (env, path, prefix, pats, n, index, entries, st) \<Rightarrow>
            2 * entries_weight entries + 1)")
      apply simp
     apply (simp add: less_Suc_eq_le entries_weight_surviving)
    apply (simp add: entries_weight_cons)
   apply (simp add: entries_weight_cons)
   apply (rule less_le_trans[OF listing_weight])
   apply simp
  apply (simp add: entries_weight_cons)
  done

section \<open>The lines of an entry\<close>

text \<open>
  The names used to state the properties. \<open>is_last\<close> is the test of the loop, \<open>branch_of\<close> the
  glyph it selects, \<open>child_prefix\<close> the prefix handed to the recursive call, \<open>file_lines\<close> the
  texts printed for a file whose summary is \<open>summary\<close>. \<open>print_lines\<close> prints texts in order up
  to the first \<^verbatim>\<open>print\<close> that raises; \<open>and_then\<close> goes on after a step that raised nothing.
  \<open>extends prefix st st'\<close>: the output of \<open>st'\<close> is the output of \<open>st\<close> followed by lines that
  all begin with \<open>prefix\<close>.
\<close>

definition is_last :: "nat \<Rightarrow> nat \<Rightarrow> bool" where
  "is_last n index \<longleftrightarrow> int index = int n - 1"

definition branch_of :: "nat \<Rightarrow> nat \<Rightarrow> str" where
  "branch_of n index = (if is_last n index then branch_last else branch_mid)"

definition child_prefix :: "str \<Rightarrow> nat \<Rightarrow> nat \<Rightarrow> str" where
  "child_prefix prefix n index = prefix @ (if is_last n index then prefix_blank else prefix_bar)"

definition file_lines :: "unicode_db \<Rightarrow> str \<Rightarrow> str \<Rightarrow> str \<Rightarrow> str \<Rightarrow> str list" where
  "file_lines db prefix branch name summary =
     (prefix @ branch @ name @ [32, 45, 32] @ hd (split_nl (fill db summary 60)))
     # map (\<lambda>line. prefix @ replicate (length branch) 32 @ [32, 32] @ line)
         (tl (split_nl (fill db summary 60)))"

fun print_lines :: "console \<Rightarrow> str list \<Rightarrow> state \<Rightarrow> pyexn option \<times> state" where
  "print_lines console [] st = (None, st)"
| "print_lines console (text # texts) st =
     (case print_line console text st of
        (Some e, st') \<Rightarrow> (Some e, st')
      | (None, st') \<Rightarrow> print_lines console texts st')"

definition and_then ::
  "pyexn option \<times> state \<Rightarrow> (state \<Rightarrow> pyexn option \<times> state) \<Rightarrow> pyexn option \<times> state" where
  "and_then r k = (case r of (Some e, st) \<Rightarrow> (Some e, st) | (None, st) \<Rightarrow> k st)"

definition extends :: "str \<Rightarrow> state \<Rightarrow> state \<Rightarrow> bool" where
  "extends prefix st st' \<longleftrightarrow>
     (\<exists>out. stdout st' = stdout st @ out \<and> list_all (\<lambda>l. take (length prefix) l = prefix) out)"

text \<open>
  \<open>ignored\<close>: the name matches one of the patterns (\<^verbatim>\<open>any(fnmatch.fnmatch(name, pat) ...)\<close>).
  \<open>entry_block\<close>: the lines of one entry of a directory printed with \<open>prefix\<close>: a first line
  that begins with the prefix, the branch glyph and the name, then lines that all begin with
  the prefix followed by four spaces or by the bar and three spaces.
\<close>

definition ignored :: "str list option \<Rightarrow> str \<Rightarrow> bool" where
  "ignored ignore_patterns name =
     (case ignore_patterns of None \<Rightarrow> False | Some pats \<Rightarrow> list_ex (\<lambda>pat. fnmatch name pat) pats)"

definition entry_block :: "str \<Rightarrow> str \<Rightarrow> str \<Rightarrow> str list \<Rightarrow> bool" where
  "entry_block prefix branch name block \<longleftrightarrow>
     (\<exists>t body. block = (prefix @ branch @ name @ t) # body \<and>
        list_all (\<lambda>l. take (length prefix + 4) l = prefix @ prefix_blank
                     \<or> take (length prefix + 4) l = prefix @ prefix_bar) body)"

text \<open>
  \<open>listable\<close>: every directory of the tree can be listed, or its listing fails with
  \<open>PermissionError\<close>.
\<close>

function listable :: "pyexn + (str \<times> node) list \<Rightarrow> bool"
and listable_entries :: "(str \<times> node) list \<Rightarrow> bool" where
  "listable (Inl e) = (exn_cls e = PermissionError)"
| "listable (Inr es) = listable_entries es"
| "listable_entries [] = True"
| "listable_entries ((name, File opened) # rest) = listable_entries rest"
| "listable_entries ((name, Dir sub) # rest) = (listable sub \<and> listable_entries rest)"
  by pat_completeness auto
termination
  apply (relation "measure (\<lambda>x. case x of
          Inl listing \<Rightarrow> (case listing of Inl e \<Rightarrow> 0 | Inr es \<Rightarrow> 2 * entries_weight es + 2)
        | Inr entries \<Rightarrow> 2 * entries_weight entries + 1)")
      apply simp
     apply simp
    apply (simp add: entries_weight_cons)
   apply (simp add: entries_weight_cons)
   apply (rule less_le_trans[OF listing_weight])
   apply simp
  apply (simp add: entries_weight_cons)
  done

section \<open>Examples\<close>

text \<open>
  For the examples: the tables of the Unicode database on ASCII and on the Japanese
  characters of the messages of the program, a summarizer that always
  answers the same, one that always fails, a console that takes every text, a console with
  the UTF-8 encoding, which has no surrogate, a console with the encoding of code page 437,
  which has the box-drawing characters and no Japanese one (the message of its exception is
  shortened to the reason), and the state before the first call.
\<close>

definition example_db :: unicode_db where
  "example_db =
     \<lparr>uni_isalnum = (\<lambda>c. (48 \<le> c \<and> c \<le> 57) \<or> (65 \<le> c \<and> c \<le> 90) \<or> (97 \<le> c \<and> c \<le> 122)
          \<or> c \<in> set [12375, 12394, 12415, 12426, 12450, 12456, 12463, 12473, 12475, 12521, 12540,
                       21462, 27177, 32004, 35201, 35501, 38480]),
      uni_isdecimal = (\<lambda>c. 48 \<le> c \<and> c \<le> 57)\<rparr>"

definition const_client :: "str \<Rightarrow> client" where
  "const_client text hist prompt = Inr text"

definition failing_client :: "pyexn \<Rightarrow> client" where
  "failing_client e hist prompt = Inl e"

definition quiet_console :: console where
  "quiet_console hist text = None"

definition utf8_console :: console where
  "utf8_console hist text =
     (if list_ex (\<lambda>c. 55296 \<le> c \<and> c \<le> 57343) text
      then Some (PyExn UnicodeEncodeError (ascii ''surrogates not allowed''))
      else None)"

definition cp437_high :: "uchar list" where
  "cp437_high = [199, 252, 233, 226, 228, 224, 229, 231, 234, 235, 232, 239, 238, 236, 196, 197,
     201, 230, 198, 244, 246, 242, 251, 249, 255, 214, 220, 162, 163, 165, 8359, 402,
     225, 237, 243, 250, 241, 209, 170, 186, 191, 8976, 172, 189, 188, 161, 171, 187,
     9617, 9618, 9619, 9474, 9508, 9569, 9570, 9558, 9557, 9571, 9553, 9559, 9565, 9564, 9563, 9488,
     9492, 9524, 9516, 9500, 9472, 9532, 9566, 9567, 9562, 9556, 9577, 9574, 9568, 9552, 9580, 9575,
     9576, 9572, 9573, 9561, 9560, 9554, 9555, 9579, 9578, 9496, 9484, 9608, 9604, 9612, 9616, 9600,
     945, 223, 915, 960, 931, 963, 181, 964, 934, 920, 937, 948, 8734, 966, 949, 8745,
     8801, 177, 8805, 8804, 8992, 8993, 247, 8776, 176, 8729, 183, 8730, 8319, 178, 9632, 160]"

definition cp437_console :: console where
  "cp437_console hist text =
     (if list_ex (\<lambda>c. \<not> (c < 128 \<or> c \<in> set cp437_high)) text
      then Some (PyExn UnicodeEncodeError (ascii ''character maps to <undefined>''))
      else None)"

definition env0 :: env where
  "env0 = \<lparr>env_db = example_db, env_client = const_client (ascii ''ok''), env_console = quiet_console\<rparr>"

definition env_cp437 :: env where
  "env_cp437 = \<lparr>env_db = example_db, env_client = const_client (ascii ''ok''),
                 env_console = cp437_console\<rparr>"

definition state0 :: state where
  "state0 = \<lparr>stdout = [], requests = []\<rparr>"

definition abort_example :: "pyexn + (str \<times> node) list" where
  "abort_example = Inr [(ascii ''b.txt'', File (Inr [Inr (ascii ''text'')])),
                        (ascii ''a'', Dir (Inl (PyExn FileNotFoundError (ascii ''gone''))))]"


definition env_quota :: env where
  "env_quota = \<lparr>env_db = example_db,
                 env_client = failing_client (PyExn OtherException (ascii ''quota'')),
                 env_console = quiet_console\<rparr>"

definition unreadable_first :: "(str \<times> node) list" where
  "unreadable_first = [(ascii ''a.txt'', File (Inl (PyExn PermissionError (ascii ''denied'')))),
                       (ascii ''b.txt'', File (Inr [Inr (ascii ''text'')]))]"

definition readable_first :: "(str \<times> node) list" where
  "readable_first = [(ascii ''a.txt'', File (Inr [Inr (ascii ''text'')])),
                     (ascii ''b.txt'', File (Inr [Inr (ascii ''text'')]))]"

definition nested_example :: "(str \<times> node) list" where
  "nested_example = [(ascii ''z.log'', Dir (Inr [])),
                     (ascii ''a'', Dir (Inr [(ascii ''x'', Dir (Inr []))]))]"

section \<open>Lemmas on the loop\<close>

lemma and_then_simps [simp]:
  "and_then (Some e, st) k = (Some e, st)"
  "and_then (None, st) k = k st"
  by (simp_all add: and_then_def)

lemma print_rest_eq:
  "print_rest console prefix branch lines st
     = print_lines console (map (\<lambda>line. prefix @ replicate (length branch) 32 @ [32, 32] @ line) lines) st"
  by (induction lines arbitrary: st) (auto split: prod.splits option.splits)

lemma split_nl_nonempty: "split_nl s \<noteq> []"
  by (induction s) (auto split: list.splits)

lemma print_entries_File:
  "print_entries env path prefix pats n index ((name, File opened) # rest) st
     = (case summarize_file (env_client env) opened 5000 st of
          (summary, st1) \<Rightarrow>
            and_then (print_lines (env_console env)
                        (file_lines (env_db env) prefix (branch_of n index) name summary) st1)
              (\<lambda>st3. print_entries env path prefix pats n (Suc index) rest st3))"
  by (simp add: Let_def print_rest_eq branch_of_def is_last_def file_lines_def and_then_def
      split: prod.splits option.splits)

lemma print_entries_Dir:
  "print_entries env path prefix pats n index ((name, Dir listing) # rest) st
     = and_then (print_line (env_console env) (prefix @ branch_of n index @ name @ [47]) st)
         (\<lambda>st0. and_then (print_tree env listing (path_join path name)
                             (child_prefix prefix n index) pats st0)
            (\<lambda>st'. print_entries env path prefix pats n (Suc index) rest st'))"
  by (simp add: Let_def branch_of_def is_last_def child_prefix_def and_then_def
      split: prod.splits option.splits)

declare print_entries.simps(2) [simp del]

lemma print_line_cases:
  obtains e where "console (stdout st) text = Some e" "print_line console text st = (Some e, st)"
  | "console (stdout st) text = None"
    "print_line console text st = (None, st\<lparr>stdout := stdout st @ [text]\<rparr>)"
  by (cases "console (stdout st) text") (auto simp: print_line_def)

lemma print_lines_stdout:
  "\<exists>k\<le>length texts. stdout (snd (print_lines console texts st)) = stdout st @ take k texts
      \<and> requests (snd (print_lines console texts st)) = requests st
      \<and> (fst (print_lines console texts st) = None \<longrightarrow> k = length texts)
      \<and> (fst (print_lines console texts st) \<noteq> None \<longrightarrow> k < length texts)"
proof (induction texts arbitrary: st)
  case Nil
  then show ?case by simp
next
  case (Cons t ts)
  show ?case
  proof (cases rule: print_line_cases[of console st t])
    case (1 e)
    then show ?thesis by (intro exI[of _ 0]) simp
  next
    case 2
    from Cons[of "st\<lparr>stdout := stdout st @ [t]\<rparr>"] obtain k where
      "k \<le> length ts" and k: "stdout (snd (print_lines console ts (st\<lparr>stdout := stdout st @ [t]\<rparr>)))
          = stdout st @ t # take k ts"
        "requests (snd (print_lines console ts (st\<lparr>stdout := stdout st @ [t]\<rparr>))) = requests st"
        "fst (print_lines console ts (st\<lparr>stdout := stdout st @ [t]\<rparr>)) = None \<longrightarrow> k = length ts"
        "fst (print_lines console ts (st\<lparr>stdout := stdout st @ [t]\<rparr>)) \<noteq> None \<longrightarrow> k < length ts"
      by auto
    then show ?thesis using 2 by (intro exI[of _ "Suc k"]) simp
  qed
qed

lemma extends_refl: "extends prefix st st"
  by (simp add: extends_def)

lemma extends_trans: "extends prefix st st' \<Longrightarrow> extends prefix st' st'' \<Longrightarrow> extends prefix st st''"
  by (auto simp: extends_def)

lemma extends_weaken: "extends (prefix @ ext) st st' \<Longrightarrow> extends prefix st st'"
proof -
  have "take (length (prefix @ ext)) l = prefix @ ext \<Longrightarrow> take (length prefix) l = prefix" for l
    by (metis append_eq_conv_conj take_add append_assoc append_take_drop_id length_append)
  then show "extends (prefix @ ext) st st' \<Longrightarrow> extends prefix st st'"
    unfolding extends_def list_all_iff by blast
qed

lemma extends_print_line: "extends prefix st (snd (print_line console (prefix @ t) st))"
  by (cases rule: print_line_cases[of console st "prefix @ t"]) (simp_all add: extends_def)

lemma extends_print_lines:
  assumes "list_all (\<lambda>l. take (length prefix) l = prefix) texts"
  shows "extends prefix st (snd (print_lines console texts st))"
proof -
  from print_lines_stdout[of texts console st] obtain k where
    "stdout (snd (print_lines console texts st)) = stdout st @ take k texts" by blast
  moreover have "list_all (\<lambda>l. take (length prefix) l = prefix) (take k texts)"
    using assms unfolding list_all_iff by (auto dest: in_set_takeD)
  ultimately show ?thesis unfolding extends_def by blast
qed

lemma file_lines_prefixed:
  "list_all (\<lambda>l. take (length prefix) l = prefix) (file_lines db prefix branch name summary)"
  by (simp add: file_lines_def list_all_iff)

lemma summarize_file_stdout: "stdout (snd (summarize_file client opened m st)) = stdout st"
  by (auto simp: summarize_file_def Let_def split: sum.splits)

lemma extends_summarize: "extends prefix st (snd (summarize_file client opened m st))"
  by (simp add: extends_def summarize_file_stdout)

lemma stdout_prefixed:
  "extends prefix st (snd (print_tree env listing path prefix pats st))"
  "extends prefix st (snd (print_entries env path prefix pats n index es st))"
proof (induction env listing path prefix pats st and env path prefix pats n index es st
       rule: print_tree_print_entries.induct)
  case (1 env e path prefix ignore_patterns st)
  then show ?case by (simp add: extends_refl extends_print_line)
next
  case (2 env listing path prefix ignore_patterns st)
  then show ?case by (simp add: Let_def)
next
  case (3 env path prefix ignore_patterns n index st)
  then show ?case by (simp add: extends_refl)
next
  case (4 env path prefix ignore_patterns n index name nd rest st)
  show ?case
  proof (cases nd)
    case (File opened)
    obtain summary st1 where sf: "summarize_file (env_client env) opened 5000 st = (summary, st1)"
      by (cases "summarize_file (env_client env) opened 5000 st")
    let ?fl = "file_lines (env_db env) prefix (branch_of n index) name summary"
    obtain r3 st3 where pl: "print_lines (env_console env) ?fl st1 = (r3, st3)"
      by (cases "print_lines (env_console env) ?fl st1")
    have a: "extends prefix st st1"
      using extends_summarize[of prefix st "env_client env" opened 5000] sf by simp
    have "extends prefix st1 (snd (print_lines (env_console env) ?fl st1))"
      by (rule extends_print_lines[OF file_lines_prefixed])
    then have b: "extends prefix st1 st3"
      using pl by simp
    show ?thesis
    proof (cases r3)
      case (Some e)
      then show ?thesis
        using extends_trans[OF a b] by (simp add: File print_entries_File sf pl)
    next
      case None
      obtain st2 where p1: "print_line (env_console env)
          (prefix @ branch_of n index @ name @ [32, 45, 32] @ hd (split_nl (fill (env_db env) summary 60))) st1
          = (None, st2)"
        and p2: "print_rest (env_console env) prefix (branch_of n index)
            (tl (split_nl (fill (env_db env) summary 60))) st2 = (None, st3)"
        using pl None
        by (auto simp: file_lines_def print_rest_eq split: prod.splits option.splits)
      have c: "extends prefix st3 (snd (print_entries env path prefix ignore_patterns n (Suc index) rest st3))"
        by (rule "4.IH"(1)[OF refl refl refl File sf[symmetric] refl refl
              p1[symmetric, unfolded branch_of_def is_last_def] refl
              p2[symmetric, unfolded branch_of_def is_last_def] refl])
      show ?thesis
        using extends_trans[OF extends_trans[OF a b] c]
        by (simp add: File print_entries_File sf pl None)
    qed
  next
    case (Dir listing)
    let ?hd = "prefix @ branch_of n index @ name @ [47]"
    obtain r0 st0 where p0: "print_line (env_console env) ?hd st = (r0, st0)"
      by (cases "print_line (env_console env) ?hd st")
    have a: "extends prefix st st0"
      using extends_print_line[of prefix st "env_console env" "branch_of n index @ name @ [47]"] p0
      by simp
    show ?thesis
    proof (cases r0)
      case (Some e)
      then show ?thesis using a by (simp add: Dir print_entries_Dir p0)
    next
      case r0: None
      obtain r st' where pt: "print_tree env listing (path_join path name) (child_prefix prefix n index)
          ignore_patterns st0 = (r, st')"
        by (cases "print_tree env listing (path_join path name) (child_prefix prefix n index) ignore_patterns st0")
      have "extends (child_prefix prefix n index) st0 st'"
        using "4.IH"(2)[OF refl refl refl Dir p0[symmetric, unfolded branch_of_def is_last_def] r0] pt
        by (simp add: child_prefix_def is_last_def)
      then have b: "extends prefix st0 st'"
        unfolding child_prefix_def by (rule extends_weaken)
      show ?thesis
      proof (cases r)
        case None
        have c: "extends prefix st' (snd (print_entries env path prefix ignore_patterns n (Suc index) rest st'))"
          by (rule "4.IH"(3)[OF refl refl refl Dir p0[symmetric, unfolded branch_of_def is_last_def] r0
                pt[symmetric, unfolded child_prefix_def is_last_def] None])
        show ?thesis
          using extends_trans[OF extends_trans[OF a b] c]
          by (simp add: Dir print_entries_Dir p0 r0 pt None)
      next
        case (Some e)
        show ?thesis
          using extends_trans[OF a b]
          by (simp add: Dir print_entries_Dir p0 r0 pt Some)
      qed
    qed
  qed
qed

lemma branch_of_length: "length (branch_of n index) = 4"
  by (simp add: branch_of_def branch_last_def branch_mid_def)

lemma filter_loop_eq:
  "filter_loop pats acc es = acc @ filter (\<lambda>e. \<not> list_ex (\<lambda>pat. fnmatch (fst e) pat) pats) es"
  by (induction pats acc es rule: filter_loop.induct) auto

lemma surviving_eq:
  "surviving pats listing = filter (\<lambda>e. \<not> ignored pats (fst e)) (sort_key fst listing)"
  by (auto simp: surviving_def Let_def ignored_def filter_loop_eq split: option.splits)




lemma file_lines_block_take:
  assumes "length branch = 4" "0 < k"
  shows "entry_block prefix branch name (take k (file_lines db prefix branch name summary))"
proof -
  obtain j where k: "k = Suc j" using assms(2) by (cases k) auto
  have "list_all (\<lambda>l. take (length prefix + 4) l = prefix @ prefix_blank
                     \<or> take (length prefix + 4) l = prefix @ prefix_bar)
          (take j (map (\<lambda>line. prefix @ replicate (length branch) 32 @ [32, 32] @ line)
                 (tl (split_nl (fill db summary 60)))))"
    using assms(1) unfolding list_all_iff
    by (auto dest!: in_set_takeD simp: prefix_blank_def numeral_eq_Suc)
  then show ?thesis
    unfolding entry_block_def file_lines_def k by (simp del: take_map)
qed

lemma extends_block:
  assumes "extends (child_prefix prefix n index) st0 st'"
    and "stdout st0 = stdout st @ [prefix @ branch @ name @ [47]]"
  shows "\<exists>block. stdout st' = stdout st @ block \<and> entry_block prefix branch name block"
proof -
  from assms obtain out where out: "stdout st' = stdout st @ (prefix @ branch @ name @ [47]) # out"
    and all: "list_all (\<lambda>l. take (length (child_prefix prefix n index)) l = child_prefix prefix n index) out"
    by (auto simp: extends_def)
  have len: "length (child_prefix prefix n index) = length prefix + 4"
    by (simp add: child_prefix_def prefix_blank_def prefix_bar_def)
  have cp: "child_prefix prefix n index = prefix @ prefix_blank
      \<or> child_prefix prefix n index = prefix @ prefix_bar"
    by (simp add: child_prefix_def)
  have "list_all (\<lambda>l. take (length prefix + 4) l = prefix @ prefix_blank
                     \<or> take (length prefix + 4) l = prefix @ prefix_bar) out"
    using all cp unfolding len list_all_iff by metis
  then have "entry_block prefix branch name ((prefix @ branch @ name @ [47]) # out)"
    unfolding entry_block_def by blast
  with out show ?thesis by blast
qed

lemma print_entries_blocks:
  "print_entries env path prefix pats n index es st = (r, st') \<Longrightarrow>
   \<exists>blocks. stdout st' = stdout st @ concat blocks \<and> length blocks \<le> length es \<and>
     (r = None \<longrightarrow> length blocks = length es) \<and>
     (\<forall>i<length blocks. entry_block prefix (branch_of n (index + i)) (fst (es ! i)) (blocks ! i))"
proof (induction es arbitrary: index st r st')
  case Nil
  then show ?case by (intro exI[of _ "[]"]) simp
next
  case (Cons e rest)
  obtain name nd where e: "e = (name, nd)" by (cases e)
  let ?goal = "\<exists>blocks. stdout st' = stdout st @ concat blocks \<and> length blocks \<le> length (e # rest) \<and>
     (r = None \<longrightarrow> length blocks = length (e # rest)) \<and>
     (\<forall>i<length blocks. entry_block prefix (branch_of n (index + i)) (fst ((e # rest) ! i)) (blocks ! i))"
  have no_block: ?goal if "r = Some x" "stdout st' = stdout st" for x
    using that by (intro exI[of _ "[]"]) simp
  have step: ?goal
    if blk: "entry_block prefix (branch_of n index) name block"
      and mid: "stdout st1 = stdout st @ block"
      and cont: "(r, st') = (Some x, st1) \<or> print_entries env path prefix pats n (Suc index) rest st1 = (r, st')"
    for block st1 x
    using cont
  proof
    assume "(r, st') = (Some x, st1)"
    then show ?thesis using blk mid e by (intro exI[of _ "[block]"]) simp
  next
    assume "print_entries env path prefix pats n (Suc index) rest st1 = (r, st')"
    from Cons.IH[OF this] obtain blocks where b: "stdout st' = stdout st1 @ concat blocks"
      "length blocks \<le> length rest" "r = None \<longrightarrow> length blocks = length rest"
      "\<forall>i<length blocks. entry_block prefix (branch_of n (Suc index + i)) (fst (rest ! i)) (blocks ! i)"
      by blast
    have "\<forall>i<length (block # blocks). entry_block prefix (branch_of n (index + i)) (fst ((e # rest) ! i)) ((block # blocks) ! i)"
    proof (intro allI impI)
      fix i assume "i < length (block # blocks)"
      then show "entry_block prefix (branch_of n (index + i)) (fst ((e # rest) ! i)) ((block # blocks) ! i)"
        using b(4) blk e by (cases i) auto
    qed
    with b mid show ?thesis by (intro exI[of _ "block # blocks"]) simp
  qed
  show ?case
  proof (cases nd)
    case (File opened)
    obtain summary st1 where sf: "summarize_file (env_client env) opened 5000 st = (summary, st1)"
      by (cases "summarize_file (env_client env) opened 5000 st")
    have s1: "stdout st1 = stdout st" using summarize_file_stdout[of "env_client env" opened 5000 st] sf by simp
    let ?fl = "file_lines (env_db env) prefix (branch_of n index) name summary"
    obtain r3 st3 where pl: "print_lines (env_console env) ?fl st1 = (r3, st3)"
      by (cases "print_lines (env_console env) ?fl st1")
    from print_lines_stdout[of ?fl "env_console env" st1] pl obtain k where
      k: "stdout st3 = stdout st @ take k ?fl" "r3 = None \<longrightarrow> k = length ?fl" "r3 \<noteq> None \<longrightarrow> k < length ?fl"
      by (auto simp: s1)
    have res: "and_then (r3, st3) (\<lambda>st3. print_entries env path prefix pats n (Suc index) rest st3) = (r, st')"
      using Cons.prems by (simp add: e File print_entries_File sf pl)
    show ?thesis
    proof (cases "k = 0")
      case True
      then have "r3 \<noteq> None" using k(2) by (auto simp: file_lines_def)
      then obtain x where "r3 = Some x" by auto
      have "r = Some x" "stdout st' = stdout st"
        using res k(1) True \<open>r3 = Some x\<close> by auto
      then show ?thesis by (rule no_block)
    next
      case False
      then have blk: "entry_block prefix (branch_of n index) name (take k ?fl)"
        by (intro file_lines_block_take) (simp_all add: branch_of_length)
      show ?thesis
      proof (rule step[OF blk, of st3 "the r3"])
        show "stdout st3 = stdout st @ take k ?fl" by (rule k(1))
        show "(r, st') = (Some (the r3), st3)
            \<or> print_entries env path prefix pats n (Suc index) rest st3 = (r, st')"
          using res by (cases r3) auto
      qed
    qed
  next
    case (Dir listing)
    let ?hd = "prefix @ branch_of n index @ name @ [47]"
    have res: "and_then (print_line (env_console env) ?hd st)
         (\<lambda>st0. and_then (print_tree env listing (path_join path name) (child_prefix prefix n index) pats st0)
            (\<lambda>st'. print_entries env path prefix pats n (Suc index) rest st')) = (r, st')"
      using Cons.prems by (simp add: e Dir print_entries_Dir)
    show ?thesis
    proof (cases rule: print_line_cases[of "env_console env" st ?hd])
      case (1 x)
      have "r = Some x" "stdout st' = stdout st"
        using res 1 by auto
      then show ?thesis by (rule no_block)
    next
      case 2
      let ?st0 = "st\<lparr>stdout := stdout st @ [?hd]\<rparr>"
      obtain r1 st1 where pt: "print_tree env listing (path_join path name) (child_prefix prefix n index)
          pats ?st0 = (r1, st1)"
        by (cases "print_tree env listing (path_join path name) (child_prefix prefix n index) pats ?st0")
      have "extends (child_prefix prefix n index) ?st0 st1"
        using stdout_prefixed(1)[of "child_prefix prefix n index" ?st0 env listing "path_join path name" pats] pt
        by simp
      from extends_block[OF this, of st "branch_of n index" name] obtain block where
        blk: "stdout st1 = stdout st @ block" "entry_block prefix (branch_of n index) name block"
        by auto
      show ?thesis
      proof (rule step[OF blk(2), of st1 "the r1"])
        show "stdout st1 = stdout st @ block" by (rule blk(1))
        show "(r, st') = (Some (the r1), st1)
            \<or> print_entries env path prefix pats n (Suc index) rest st1 = (r, st')"
          using res 2 pt by (cases r1) auto
      qed
    qed
  qed
qed

lemma is_last_iff: "i < n \<Longrightarrow> is_last n i \<longleftrightarrow> i = n - 1"
  by (auto simp: is_last_def)


section \<open>Order and branch glyphs\<close>



lemma print_entries_append:
  "print_entries env path prefix pats n index (xs @ ys) st
     = and_then (print_entries env path prefix pats n index xs st)
         (\<lambda>st'. print_entries env path prefix pats n (index + length xs) ys st')"
proof (induction xs arbitrary: index st)
  case Nil
  then show ?case by simp
next
  case (Cons x xs)
  obtain name nd where x: "x = (name, nd)" by (cases x)
  show ?case
  proof (cases nd)
    case (File opened)
    show ?thesis
      by (simp add: x File print_entries_File Cons and_then_def split: prod.splits option.splits)
  next
    case (Dir listing)
    show ?thesis
      by (simp add: x Dir print_entries_Dir Cons and_then_def split: prod.splits option.splits)
  qed
qed

lemma print_lines_quiet:
  "(\<And>hist text. console hist text = None) \<Longrightarrow>
   print_lines console texts st = (None, st\<lparr>stdout := stdout st @ texts\<rparr>)"
  by (induction texts arbitrary: st) (simp_all add: print_line_def)

lemma listable_insort:
  "listable_entries (insort_key fst x es) \<longleftrightarrow> listable_entries [x] \<and> listable_entries es"
proof (induction es)
  case Nil
  then show ?case by simp
next
  case (Cons y es)
  obtain n1 d1 where x: "x = (n1, d1)" by (cases x)
  obtain n2 d2 where y: "y = (n2, d2)" by (cases y)
  show ?case using Cons by (cases d1; cases d2) (auto simp: x y)
qed

lemma listable_sort: "listable_entries (sort_key fst es) \<longleftrightarrow> listable_entries es"
proof (induction es)
  case Nil
  then show ?case by simp
next
  case (Cons x es)
  obtain n1 d1 where x: "x = (n1, d1)" by (cases x)
  show ?case using Cons by (cases d1) (auto simp: x listable_insort)
qed

lemma listable_filter: "listable_entries es \<Longrightarrow> listable_entries (filter P es)"
proof (induction es)
  case Nil
  then show ?case by simp
next
  case (Cons x es)
  obtain n1 d1 where x: "x = (n1, d1)" by (cases x)
  show ?case using Cons by (cases d1) (auto simp: x)
qed

lemma listable_surviving: "listable_entries es \<Longrightarrow> listable_entries (surviving pats es)"
  by (simp add: surviving_eq listable_filter listable_sort)

lemma listable_returns:
  "(\<And>hist text. env_console env hist text = None) \<Longrightarrow> listable listing \<Longrightarrow>
     fst (print_tree env listing path prefix pats st) = None"
  "(\<And>hist text. env_console env hist text = None) \<Longrightarrow> listable_entries es \<Longrightarrow>
     fst (print_entries env path prefix pats n index es st) = None"
proof (induction env listing path prefix pats st and env path prefix pats n index es st
       rule: print_tree_print_entries.induct)
  case (1 env e path prefix ignore_patterns st)
  then show ?case by (simp add: print_line_def)
next
  case (2 env listing path prefix ignore_patterns st)
  then show ?case by (simp add: Let_def listable_surviving)
next
  case (3 env path prefix ignore_patterns n index st)
  then show ?case by simp
next
  case (4 env path prefix ignore_patterns n index name nd rest st)
  note quiet = "4.prems"(1)
  show ?case
  proof (cases nd)
    case (File opened)
    obtain summary st1 where sf: "summarize_file (env_client env) opened 5000 st = (summary, st1)"
      by (cases "summarize_file (env_client env) opened 5000 st")
    let ?fl = "file_lines (env_db env) prefix (branch_of n index) name summary"
    let ?st3 = "st1\<lparr>stdout := stdout st1 @ ?fl\<rparr>"
    have pl: "print_lines (env_console env) ?fl st1 = (None, ?st3)"
      by (rule print_lines_quiet) (rule quiet)
    obtain st2 where p1: "print_line (env_console env)
          (prefix @ branch_of n index @ name @ [32, 45, 32] @ hd (split_nl (fill (env_db env) summary 60))) st1
          = (None, st2)"
      and p2: "print_rest (env_console env) prefix (branch_of n index)
            (tl (split_nl (fill (env_db env) summary 60))) st2 = (None, ?st3)"
      using pl
      by (auto simp: file_lines_def print_rest_eq split: prod.splits option.splits)
    have rest: "listable_entries rest" using "4.prems"(2) File by simp
    have "fst (print_entries env path prefix ignore_patterns n (Suc index) rest ?st3) = None"
      using "4.IH"(1)[OF refl refl refl File sf[symmetric] refl refl
              p1[symmetric, unfolded branch_of_def is_last_def] refl
              p2[symmetric, unfolded branch_of_def is_last_def] refl quiet rest]
      by (simp add: branch_of_def is_last_def)
    then show ?thesis
      by (simp add: File print_entries_File sf pl)
  next
    case (Dir listing)
    let ?hd = "prefix @ branch_of n index @ name @ [47]"
    let ?st0 = "st\<lparr>stdout := stdout st @ [?hd]\<rparr>"
    have p0: "print_line (env_console env) ?hd st = (None, ?st0)"
      by (simp add: print_line_def quiet)
    have sub: "listable listing" and rest: "listable_entries rest"
      using "4.prems"(2) Dir by simp_all
    obtain r st' where pt: "print_tree env listing (path_join path name) (child_prefix prefix n index)
          ignore_patterns ?st0 = (r, st')"
      by (cases "print_tree env listing (path_join path name) (child_prefix prefix n index) ignore_patterns ?st0")
    have "fst (print_tree env listing (path_join path name)
               (prefix @ (if int index = int n - 1 then prefix_blank else prefix_bar)) ignore_patterns ?st0) = None"
      using "4.IH"(2)[OF refl refl refl Dir p0[symmetric, unfolded branch_of_def is_last_def] refl quiet sub]
      by (simp add: branch_of_def is_last_def)
    then have r: "r = None" using pt by (simp add: child_prefix_def is_last_def)
    have "fst (print_entries env path prefix ignore_patterns n (Suc index) rest st') = None"
      using "4.IH"(3)[OF refl refl refl Dir p0[symmetric, unfolded branch_of_def is_last_def] refl
                pt[symmetric, unfolded child_prefix_def branch_of_def is_last_def] r quiet rest]
      by (simp add: branch_of_def is_last_def)
    then show ?thesis
      by (simp add: Dir print_entries_Dir p0 pt r)
  qed
qed

text \<open>The examples are evaluated by unfolding these definitions.\<close>

lemmas wrap_eval = fill_def wrap_def split_chunks_def munge_whitespace_def chunk_more_def
  is_ws_def word_punct_def letter_def re_w_def emdash_len_def hyphen_behind_def hyphen_ahead_def
  next_line_def drop_leading_def handle_long_word_def drop_trailing_def long_word_end_def
  rfind_hyphen_def strip_def py_isspace_def example_db_def

lemmas read_eval = read_text_def decode_def utf_8_decode_def utf8_loop.simps utf8_next_def
  is_continuation_byte_def decode_error_def codec_cant_decode_def decimal.simps hex2_def hex_digit_def

lemmas fnmatch_eval = ignored_def fnmatch_def fnmatchcase_def normcase_def compile_pieces_def
  bracket_end_def class_item_def stuff_atoms_def close_chunks_def

lemma read_text_example: "read_text (Inr [Inr (ascii ''text'')]) 5000 = Inr (ascii ''text'')"
  by (simp add: read_eval ascii_def)

lemma fill_read_error:
  "fill example_db (read_error_head @ ascii ''denied'' @ [93]) 60 = read_error_head @ ascii ''denied'' @ [93]"
  by (simp add: wrap_eval read_error_head_def ascii_def)

lemma fill_summary_error:
  "fill example_db (summary_error_head @ ascii ''quota'' @ [93]) 60 = summary_error_head @ ascii ''quota'' @ [93]"
  by (simp add: wrap_eval summary_error_head_def ascii_def)

lemma fill_ok: "fill example_db (ascii ''ok'') 60 = ascii ''ok''"
  by (simp add: wrap_eval ascii_def)

lemma strip_ok: "strip (ascii ''ok'') = ascii ''ok''"
  by (simp add: strip_def py_isspace_def ascii_def)

lemma surviving_nested:
  "surviving (Some [ascii ''*.log'']) nested_example = [(ascii ''a'', Dir (Inr [(ascii ''x'', Dir (Inr []))]))]"
  by (simp add: surviving_def nested_example_def fnmatch_eval ascii_def)

section \<open>Directories that cannot be listed\<close>

text \<open>
  C7, as worded, fails where standard output refuses the diagnostic line. With the encoding
  of code page 437 the line, which has Japanese characters, cannot be printed: listing the
  root fails with a permission error, \<^verbatim>\<open>print\<close> raises \<open>UnicodeEncodeError\<close> inside the handler,
  nothing is printed and the exception leaves \<open>print_tree\<close>.
\<close>

theorem permission_error_print_refused:
  "exn_cls (PyExn PermissionError (ascii ''denied'')) = PermissionError
   \<and> print_tree env_cp437 (Inl (PyExn PermissionError (ascii ''denied''))) (ascii ''/r'') [] None state0
       = (Some (PyExn UnicodeEncodeError (ascii ''character maps to <undefined>'')), state0)"
  by (simp add: print_line_def env_cp437_def cp437_console_def state0_def no_access_head_def
      cp437_high_def ascii_def)

text \<open>
  C7. A directory whose listing fails with a permission error: \<open>print_tree\<close> makes one call of
  \<^verbatim>\<open>print\<close>, with the current prefix followed by the diagnostic, and its result is the
  result of that call. When standard output accepts the line, \<open>print_tree\<close> has printed that
  one line and returns without raising; when it refuses, nothing is printed and the exception
  of \<^verbatim>\<open>print\<close> leaves \<open>print_tree\<close>. In the loop of the directory above, the entry prints its own
  line and then that diagnostic, nothing is asked of the summarizer, and the loop goes on with
  the next sibling when both lines were accepted.
\<close>

theorem permission_error_one_line:
  assumes "exn_cls e = PermissionError"
  shows "print_tree env (Inl e) path prefix pats st
           = print_line (env_console env) (prefix @ no_access_head @ path @ [93]) st
       \<and> (env_console env (stdout st) (prefix @ no_access_head @ path @ [93]) = None
            \<longrightarrow> print_tree env (Inl e) path prefix pats st
                = (None, st\<lparr>stdout := stdout st @ [prefix @ no_access_head @ path @ [93]]\<rparr>))
       \<and> (env_console env (stdout st) (prefix @ no_access_head @ path @ [93]) = Some x
            \<longrightarrow> print_tree env (Inl e) path prefix pats st = (Some x, st))
       \<and> print_entries env path prefix pats n index ((name, Dir (Inl e)) # rest) st
           = and_then (print_lines (env_console env)
                         [prefix @ branch_of n index @ name @ [47],
                          child_prefix prefix n index @ no_access_head @ path_join path name @ [93]] st)
               (\<lambda>st'. print_entries env path prefix pats n (Suc index) rest st')
       \<and> (env_console env (stdout st) (prefix @ branch_of n index @ name @ [47]) = None
          \<and> env_console env (stdout st @ [prefix @ branch_of n index @ name @ [47]])
               (child_prefix prefix n index @ no_access_head @ path_join path name @ [93]) = None
            \<longrightarrow> print_entries env path prefix pats n index ((name, Dir (Inl e)) # rest) st
                = print_entries env path prefix pats n (Suc index) rest
                    (st\<lparr>stdout := stdout st @
                       [prefix @ branch_of n index @ name @ [47],
                        child_prefix prefix n index @ no_access_head @ path_join path name @ [93]]\<rparr>))"
  using assms
  by (auto simp: print_entries_Dir print_line_def and_then_def split: option.splits)

theorem permission_error_one_line_witness:
  "exn_cls (PyExn PermissionError (ascii ''denied'')) = PermissionError
   \<and> env_console env0 (stdout state0) (ascii ''    '' @ no_access_head @ ascii ''/r/a'' @ [93]) = None
   \<and> print_tree env0 (Inl (PyExn PermissionError (ascii ''denied'')))
        (ascii ''/r/a'') (ascii ''    '') None state0
      = (None, \<lparr>stdout = [ascii ''    '' @ no_access_head @ ascii ''/r/a'' @ [93]], requests = []\<rparr>)
   \<and> print_entries env0 (ascii ''/r'') [] None 2 0
        [(ascii ''a'', Dir (Inl (PyExn PermissionError (ascii ''denied'')))), (ascii ''b'', Dir (Inr []))] state0
      = (None, \<lparr>stdout = [branch_mid @ ascii ''a/'', prefix_bar @ no_access_head @ ascii ''/r/a]'',
                           branch_last @ ascii ''b/''], requests = []\<rparr>)"
proof -
  have h: "exn_cls (PyExn PermissionError (ascii ''denied'')) = PermissionError" by simp
  note t = permission_error_one_line[OF h, where env = env0 and path = "ascii ''/r/a''"
      and prefix = "ascii ''    ''" and pats = None and st = state0]
  note u = permission_error_one_line[OF h, where env = env0 and path = "ascii ''/r''"
      and prefix = "[]" and pats = None and st = state0 and n = 2 and index = 0 and name = "ascii ''a''"
      and rest = "[(ascii ''b'', Dir (Inr []))]"]
  have q: "env_console env0 hist t = None" for hist t
    by (simp add: env0_def quiet_console_def)
  show ?thesis
    using h t u q
    by (simp add: state0_def print_entries_Dir branch_of_def is_last_def child_prefix_def print_line_def
        path_join_def surviving_def ascii_def)
qed

text \<open>
  C9. A directory whose listing fails with any other error: \<open>print_tree\<close> prints nothing and
  the exception leaves it. In the loop of the directory above, the entry's own line is
  printed first; an exception leaves the loop in every case, and when the line was accepted
  it is the exception of the listing; the siblings after it are not processed. The same
  holds at every depth: an exception that leaves the recursive call leaves the loop, and the
  loop's result is the result of \<open>print_tree\<close>.
\<close>

theorem listing_error_propagates:
  assumes "exn_cls e \<noteq> PermissionError"
  shows "print_tree env (Inl e) path prefix pats st = (Some e, st)
       \<and> print_entries env path prefix pats n index ((name, Dir (Inl e)) # rest) st
           = and_then (print_line (env_console env) (prefix @ branch_of n index @ name @ [47]) st)
               (\<lambda>st0. (Some e, st0))
       \<and> fst (print_entries env path prefix pats n index ((name, Dir (Inl e)) # rest) st) \<noteq> None
       \<and> (env_console env (stdout st) (prefix @ branch_of n index @ name @ [47]) = None
           \<longrightarrow> print_entries env path prefix pats n index ((name, Dir (Inl e)) # rest) st
                = (Some e, st\<lparr>stdout := stdout st @ [prefix @ branch_of n index @ name @ [47]]\<rparr>))
       \<and> (print_line (env_console env) (prefix @ branch_of n index @ name @ [47]) st = (None, st0)
          \<and> print_tree env sub (path_join path name) (child_prefix prefix n index) pats st0 = (Some e', st')
           \<longrightarrow> print_entries env path prefix pats n index ((name, Dir sub) # rest) st
                 = (Some e', st'))
       \<and> print_tree env (Inr listing) path prefix pats st
           = print_entries env path prefix pats (length (surviving pats listing)) 0
               (surviving pats listing) st"
  using assms
  by (auto simp: print_entries_Dir Let_def print_line_def and_then_def split: option.splits)

theorem listing_error_propagates_witness:
  "exn_cls (PyExn FileNotFoundError (ascii ''gone'')) \<noteq> PermissionError
   \<and> env_console env0 (stdout state0) (branch_mid @ ascii ''a/'') = None
   \<and> print_tree env0 abort_example (ascii ''/r'') [] None state0
       = (Some (PyExn FileNotFoundError (ascii ''gone'')),
          \<lparr>stdout = [branch_mid @ ascii ''a/''], requests = []\<rparr>)"
proof -
  have h: "exn_cls (PyExn FileNotFoundError (ascii ''gone'')) \<noteq> PermissionError" by simp
  note t = listing_error_propagates[OF h, where env = env0
      and path = "ascii ''/r''" and prefix = "[]" and pats = None and st = state0 and n = "Suc (Suc 0)"
      and index = 0 and name = "ascii ''a''" and rest = "[(ascii ''b.txt'', File (Inr [Inr (ascii ''text'')]))]"
      and sub = "Inl (PyExn FileNotFoundError (ascii ''gone''))" and e' = "PyExn FileNotFoundError (ascii ''gone'')"
      and st' = state0 and st0 = state0 and listing = "[]"]
  have s: "surviving None [(ascii ''b.txt'', File (Inr [Inr (ascii ''text'')])),
                 (ascii ''a'', Dir (Inl (PyExn FileNotFoundError (ascii ''gone''))))]
      = [(ascii ''a'', Dir (Inl (PyExn FileNotFoundError (ascii ''gone'')))),
      (ascii ''b.txt'', File (Inr [Inr (ascii ''text'')]))]"
    by (simp add: surviving_def ascii_def)
  have q: "env_console env0 hist t = None" for hist t
    by (simp add: env0_def quiet_console_def)
  show ?thesis
    using h t s q
    by (simp add: abort_example_def branch_of_def is_last_def print_line_def state0_def ascii_def)
qed

section \<open>Files that cannot be summarized\<close>

text \<open>
  C6, as worded, fails where standard output refuses the diagnostic. With the encoding of
  code page 437 and a summarizer that answers in ASCII: when the first file cannot be read,
  its line carries the Japanese diagnostic, \<^verbatim>\<open>print\<close> raises \<open>UnicodeEncodeError\<close> and the run
  is aborted before the second file; when the same file can be read, both files are printed
  and the run returns.
\<close>

theorem file_failure_aborts:
  "print_tree env_cp437 (Inr unreadable_first) (ascii ''/r'') [] None state0
     = (Some (PyExn UnicodeEncodeError (ascii ''character maps to <undefined>'')), state0)
   \<and> print_tree env_cp437 (Inr readable_first) (ascii ''/r'') [] None state0
     = (None, \<lparr>stdout = [branch_mid @ ascii ''a.txt - ok'', branch_last @ ascii ''b.txt - ok''],
               requests = [prompt_head @ ascii ''text'' @ prompt_tail,
                           prompt_head @ ascii ''text'' @ prompt_tail]\<rparr>)"
proof -
  have s1: "surviving None unreadable_first = unreadable_first"
    by (simp add: surviving_def unreadable_first_def ascii_def)
  have s2: "surviving None readable_first = readable_first"
    by (simp add: surviving_def readable_first_def ascii_def)
  have a: "print_tree env_cp437 (Inr unreadable_first) (ascii ''/r'') [] None state0
     = (Some (PyExn UnicodeEncodeError (ascii ''character maps to <undefined>'')), state0)"
    using fill_read_error
    by (simp add: s1 Let_def) (simp add: unreadable_first_def print_entries_File summarize_file_def
        read_text_def file_lines_def branch_of_def is_last_def print_line_def env_cp437_def
        cp437_console_def cp437_high_def state0_def read_error_head_def branch_mid_def ascii_def)
  have b: "print_tree env_cp437 (Inr readable_first) (ascii ''/r'') [] None state0
     = (None, \<lparr>stdout = [branch_mid @ ascii ''a.txt - ok'', branch_last @ ascii ''b.txt - ok''],
               requests = [prompt_head @ ascii ''text'' @ prompt_tail,
                           prompt_head @ ascii ''text'' @ prompt_tail]\<rparr>)"
    using fill_ok read_text_example strip_ok
    by (simp add: s2 Let_def) (simp add: readable_first_def print_entries_File summarize_file_def
        file_lines_def branch_of_def is_last_def print_line_def env_cp437_def const_client_def
        cp437_console_def cp437_high_def state0_def branch_mid_def branch_last_def ascii_def)
  from a b show ?thesis by simp
qed

text \<open>
  C6. When reading the file fails, or the call of the summarizer fails, \<open>summarize_file\<close>
  returns a diagnostic string, which begins with \<^verbatim>\<open>[\<close> and ends with \<^verbatim>\<open>]\<close>; it never raises.
  The loop prints the lines of the file from whatever \<open>summarize_file\<close> returned and goes on
  with the next entry unless one of these calls of \<^verbatim>\<open>print\<close> raises. Where standard output
  accepts every line, the loop goes on after every file, and a run over a tree whose
  directories can all be listed, or fail with a permission error, returns without raising,
  whatever its files and the summarizer do.
\<close>

theorem file_failures_do_not_abort:
  "summarize_file client (Inl e) max_chars st = (read_error_head @ exn_msg e @ [93], st)
   \<and> (read_text opened max_chars = Inl e
        \<longrightarrow> summarize_file client opened max_chars st = (read_error_head @ exn_msg e @ [93], st))
   \<and> (read_text opened max_chars = Inr content
       \<and> client (requests st) (prompt_head @ content @ prompt_tail) = Inl e
        \<longrightarrow> summarize_file client opened max_chars st
            = (summary_error_head @ exn_msg e @ [93],
               st\<lparr>requests := requests st @ [prompt_head @ content @ prompt_tail]\<rparr>))
   \<and> hd (read_error_head @ exn_msg e @ [93]) = 91 \<and> last (read_error_head @ exn_msg e @ [93]) = 93
   \<and> hd (summary_error_head @ exn_msg e @ [93]) = 91 \<and> last (summary_error_head @ exn_msg e @ [93]) = 93
   \<and> print_entries env path prefix pats n index ((name, File opened) # rest) st
       = and_then (print_lines (env_console env)
                     (file_lines (env_db env) prefix (branch_of n index) name
                        (fst (summarize_file (env_client env) opened 5000 st)))
                     (snd (summarize_file (env_client env) opened 5000 st)))
           (\<lambda>st3. print_entries env path prefix pats n (Suc index) rest st3)
   \<and> ((\<forall>hist t. env_console env hist t = None)
        \<longrightarrow> print_entries env path prefix pats n index ((name, File opened) # rest) st
            = print_entries env path prefix pats n (Suc index) rest
                ((snd (summarize_file (env_client env) opened 5000 st))
                   \<lparr>stdout := stdout (snd (summarize_file (env_client env) opened 5000 st))
                      @ file_lines (env_db env) prefix (branch_of n index) name
                          (fst (summarize_file (env_client env) opened 5000 st))\<rparr>))
   \<and> ((\<forall>hist t. env_console env hist t = None) \<and> listable tree
        \<longrightarrow> fst (print_tree env tree path prefix pats st) = None)"
proof -
  have a: "summarize_file client (Inl e) max_chars st = (read_error_head @ exn_msg e @ [93], st)"
    by (simp add: summarize_file_def read_text_def)
  have b: "read_text opened max_chars = Inl e
        \<longrightarrow> summarize_file client opened max_chars st = (read_error_head @ exn_msg e @ [93], st)"
    by (simp add: summarize_file_def)
  have c: "read_text opened max_chars = Inr content
       \<and> client (requests st) (prompt_head @ content @ prompt_tail) = Inl e
        \<longrightarrow> summarize_file client opened max_chars st
            = (summary_error_head @ exn_msg e @ [93],
               st\<lparr>requests := requests st @ [prompt_head @ content @ prompt_tail]\<rparr>)"
    by (simp add: summarize_file_def Let_def)
  have d: "hd (read_error_head @ exn_msg e @ [93]) = 91 \<and> last (read_error_head @ exn_msg e @ [93]) = 93
   \<and> hd (summary_error_head @ exn_msg e @ [93]) = 91 \<and> last (summary_error_head @ exn_msg e @ [93]) = 93"
    by (simp add: read_error_head_def summary_error_head_def)
  have f: "print_entries env path prefix pats n index ((name, File opened) # rest) st
       = and_then (print_lines (env_console env)
                     (file_lines (env_db env) prefix (branch_of n index) name
                        (fst (summarize_file (env_client env) opened 5000 st)))
                     (snd (summarize_file (env_client env) opened 5000 st)))
           (\<lambda>st3. print_entries env path prefix pats n (Suc index) rest st3)"
    by (simp add: print_entries_File split: prod.splits)
  have g: "(\<forall>hist t. env_console env hist t = None)
        \<longrightarrow> print_entries env path prefix pats n index ((name, File opened) # rest) st
            = print_entries env path prefix pats n (Suc index) rest
                ((snd (summarize_file (env_client env) opened 5000 st))
                   \<lparr>stdout := stdout (snd (summarize_file (env_client env) opened 5000 st))
                      @ file_lines (env_db env) prefix (branch_of n index) name
                          (fst (summarize_file (env_client env) opened 5000 st))\<rparr>)"
    by (simp add: f print_lines_quiet)
  have h: "(\<forall>hist t. env_console env hist t = None) \<and> listable tree
        \<longrightarrow> fst (print_tree env tree path prefix pats st) = None"
    using listable_returns(1)[of env tree path prefix pats st] by blast
  from a b c d f g h show ?thesis by blast
qed

theorem file_failures_do_not_abort_witness:
  "read_text (Inl (PyExn PermissionError (ascii ''denied''))) 5000 = Inl (PyExn PermissionError (ascii ''denied''))
   \<and> read_text (Inr [Inr (ascii ''text'')]) 5000 = Inr (ascii ''text'')
   \<and> env_client env_quota [] (prompt_head @ ascii ''text'' @ prompt_tail)
       = Inl (PyExn OtherException (ascii ''quota''))
   \<and> (\<forall>hist t. env_console env_quota hist t = None)
   \<and> listable (Inr unreadable_first)
   \<and> fst (print_tree env_quota (Inr unreadable_first) (ascii ''/r'') [] None state0) = None
   \<and> print_tree env_quota (Inr unreadable_first) (ascii ''/r'') [] None state0
       = (None, \<lparr>stdout = [branch_mid @ ascii ''a.txt - '' @ read_error_head @ ascii ''denied]'',
                            branch_last @ ascii ''b.txt - '' @ summary_error_head @ ascii ''quota]''],
                 requests = [prompt_head @ ascii ''text'' @ prompt_tail]\<rparr>)"
proof -
  have h1: "read_text (Inl (PyExn PermissionError (ascii ''denied''))) 5000
      = Inl (PyExn PermissionError (ascii ''denied''))"
    by (simp add: read_text_def)
  have h2: "env_client env_quota [] (prompt_head @ ascii ''text'' @ prompt_tail)
       = Inl (PyExn OtherException (ascii ''quota''))"
    by (simp add: env_quota_def failing_client_def)
  have h3: "\<forall>hist t. env_console env_quota hist t = None"
    by (simp add: env_quota_def quiet_console_def)
  have h4: "listable (Inr unreadable_first)"
    by (simp add: unreadable_first_def)
  have s: "surviving None unreadable_first = unreadable_first"
    by (simp add: surviving_def unreadable_first_def ascii_def)
  note t = file_failures_do_not_abort[where env = env_quota and tree = "Inr unreadable_first"
      and path = "ascii ''/r''" and prefix = "[]" and pats = None and st = state0
      and client = "env_client env_quota" and e = "PyExn OtherException (ascii ''quota'')"
      and opened = "Inr [Inr (ascii ''text'')]" and max_chars = 5000 and content = "ascii ''text''"
      and n = 2 and index = 1 and name = "ascii ''b.txt''" and rest = "[]"]
  have r: "fst (print_tree env_quota (Inr unreadable_first) (ascii ''/r'') [] None state0) = None"
    using t h3 h4 by blast
  have v: "print_tree env_quota (Inr unreadable_first) (ascii ''/r'') [] None state0
       = (None, \<lparr>stdout = [branch_mid @ ascii ''a.txt - '' @ read_error_head @ ascii ''denied]'',
                            branch_last @ ascii ''b.txt - '' @ summary_error_head @ ascii ''quota]''],
                 requests = [prompt_head @ ascii ''text'' @ prompt_tail]\<rparr>)"
    using fill_read_error fill_summary_error read_text_example h1
    by (simp add: s Let_def) (simp add: unreadable_first_def print_entries_File summarize_file_def
        file_lines_def branch_of_def is_last_def print_line_def env_quota_def failing_client_def
        quiet_console_def state0_def read_error_head_def summary_error_head_def ascii_def)
  from h1 read_text_example h2 h3 h4 r v show ?thesis by blast
qed

section \<open>The prefix of a subdirectory\<close>

text \<open>
  C5. Let a directory be the entry of index \<open>i\<close> among the surviving entries of a listing.
  The run of \<open>print_tree\<close> on the listing is: the entries before it, the line of the
  directory, the recursive call, the entries after it; and the recursive call receives the
  current prefix extended by four spaces when \<open>i\<close> is the index of the last surviving entry,
  and by a vertical bar and three spaces otherwise. Whatever prefix a call on the
  subdirectory receives, every line it prints, at any depth below, begins with it; the
  output of the call is, entry by entry, the blocks of the surviving entries of the
  subdirectory, each beginning with that prefix, the glyph and the name, and followed by
  lines that begin with that prefix extended once more.
\<close>

theorem dir_prefix_extension:
  assumes "i < length (surviving pats listing)"
    and "surviving pats listing ! i = (name, Dir sub)"
  shows "print_tree env (Inr listing) path prefix pats st
      = and_then (print_entries env path prefix pats (length (surviving pats listing)) 0
                    (take i (surviving pats listing)) st)
          (\<lambda>st1. and_then (print_line (env_console env)
                     (prefix @ (if i = length (surviving pats listing) - 1 then branch_last else branch_mid)
                        @ name @ [47]) st1)
            (\<lambda>st2. and_then (print_tree env sub (path_join path name)
                       (prefix @ (if i = length (surviving pats listing) - 1 then prefix_blank else prefix_bar))
                       pats st2)
               (\<lambda>st3. print_entries env path prefix pats (length (surviving pats listing)) (Suc i)
                         (drop (Suc i) (surviving pats listing)) st3)))
   \<and> (\<forall>ext st2 r st3.
         print_tree env sub (path_join path name) (prefix @ ext) pats st2 = (r, st3)
         \<longrightarrow> extends (prefix @ ext) st2 st3
           \<and> (\<forall>entries. sub = Inr entries \<longrightarrow>
                (\<exists>blocks. stdout st3 = stdout st2 @ concat blocks
                   \<and> length blocks \<le> length (surviving pats entries)
                   \<and> (r = None \<longrightarrow> length blocks = length (surviving pats entries))
                   \<and> (\<forall>j<length blocks.
                         entry_block (prefix @ ext)
                           (if j = length (surviving pats entries) - 1 then branch_last else branch_mid)
                           (fst (surviving pats entries ! j)) (blocks ! j)))))
   \<and> prefix_blank = ascii ''    '' \<and> prefix_bar = 9474 # ascii ''   ''"
proof -
  let ?es = "surviving pats listing"
  have es: "?es = take i ?es @ (name, Dir sub) # drop (Suc i) ?es"
    using assms by (metis id_take_nth_drop)
  have len: "length (take i ?es) = i" using assms(1) by simp
  have "print_tree env (Inr listing) path prefix pats st
      = print_entries env path prefix pats (length ?es) 0 (take i ?es @ (name, Dir sub) # drop (Suc i) ?es) st"
    using es by (simp add: Let_def)
  also have "\<dots> = and_then (print_entries env path prefix pats (length ?es) 0 (take i ?es) st)
      (\<lambda>st1. print_entries env path prefix pats (length ?es) i ((name, Dir sub) # drop (Suc i) ?es) st1)"
    by (simp only: print_entries_append len add_0)
  finally have a: "print_tree env (Inr listing) path prefix pats st
      = and_then (print_entries env path prefix pats (length ?es) 0 (take i ?es) st)
          (\<lambda>st1. and_then (print_line (env_console env)
                     (prefix @ (if i = length ?es - 1 then branch_last else branch_mid) @ name @ [47]) st1)
            (\<lambda>st2. and_then (print_tree env sub (path_join path name)
                       (prefix @ (if i = length ?es - 1 then prefix_blank else prefix_bar)) pats st2)
               (\<lambda>st3. print_entries env path prefix pats (length ?es) (Suc i) (drop (Suc i) ?es) st3)))"
    using assms(1) by (simp add: print_entries_Dir branch_of_def child_prefix_def is_last_iff)
  have b: "extends (prefix @ ext) st2 st3
           \<and> (\<forall>entries. sub = Inr entries \<longrightarrow>
                (\<exists>blocks. stdout st3 = stdout st2 @ concat blocks
                   \<and> length blocks \<le> length (surviving pats entries)
                   \<and> (r = None \<longrightarrow> length blocks = length (surviving pats entries))
                   \<and> (\<forall>j<length blocks.
                         entry_block (prefix @ ext)
                           (if j = length (surviving pats entries) - 1 then branch_last else branch_mid)
                           (fst (surviving pats entries ! j)) (blocks ! j))))"
    if run: "print_tree env sub (path_join path name) (prefix @ ext) pats st2 = (r, st3)"
    for ext st2 r st3
  proof (intro conjI allI impI)
    show "extends (prefix @ ext) st2 st3"
      using stdout_prefixed(1)[of "prefix @ ext" st2 env sub "path_join path name" pats] run by simp
  next
    fix entries assume sub: "sub = Inr entries"
    let ?ss = "surviving pats entries"
    have "print_entries env (path_join path name) (prefix @ ext) pats (length ?ss) 0 ?ss st2 = (r, st3)"
      using run by (simp add: sub Let_def)
    from print_entries_blocks[OF this] obtain blocks where bl: "stdout st3 = stdout st2 @ concat blocks"
      "length blocks \<le> length ?ss" "r = None \<longrightarrow> length blocks = length ?ss"
      "\<forall>j<length blocks. entry_block (prefix @ ext) (branch_of (length ?ss) (0 + j)) (fst (?ss ! j)) (blocks ! j)"
      by blast
    have "\<forall>j<length blocks. entry_block (prefix @ ext)
        (if j = length ?ss - 1 then branch_last else branch_mid) (fst (?ss ! j)) (blocks ! j)"
    proof (intro allI impI)
      fix j assume j: "j < length blocks"
      with bl(2) have "j < length ?ss" by simp
      then have "branch_of (length ?ss) j = (if j = length ?ss - 1 then branch_last else branch_mid)"
        by (simp add: branch_of_def is_last_iff)
      with bl(4) j show "entry_block (prefix @ ext)
        (if j = length ?ss - 1 then branch_last else branch_mid) (fst (?ss ! j)) (blocks ! j)" by auto
    qed
    with bl(1) bl(2) bl(3) show "\<exists>blocks. stdout st3 = stdout st2 @ concat blocks
                   \<and> length blocks \<le> length ?ss
                   \<and> (r = None \<longrightarrow> length blocks = length ?ss)
                   \<and> (\<forall>j<length blocks.
                         entry_block (prefix @ ext)
                           (if j = length ?ss - 1 then branch_last else branch_mid)
                           (fst (?ss ! j)) (blocks ! j))"
      by blast
  qed
  have c: "prefix_blank = ascii ''    '' \<and> prefix_bar = 9474 # ascii ''   ''"
    by (simp add: prefix_blank_def prefix_bar_def ascii_def)
  from a b c show ?thesis by blast
qed

theorem dir_prefix_extension_witness:
  "0 < length (surviving (Some [ascii ''*.log'']) nested_example)
   \<and> surviving (Some [ascii ''*.log'']) nested_example ! 0
       = (ascii ''a'', Dir (Inr [(ascii ''x'', Dir (Inr []))]))
   \<and> print_tree env0 (Inr nested_example) (ascii ''/r'') [] (Some [ascii ''*.log'']) state0
       = and_then (print_line (env_console env0) (branch_last @ ascii ''a/'') state0)
           (\<lambda>st2. and_then (print_tree env0 (Inr [(ascii ''x'', Dir (Inr []))]) (ascii ''/r/a'')
                               prefix_blank (Some [ascii ''*.log'']) st2)
              (\<lambda>st3. (None, st3)))
   \<and> print_tree env0 (Inr nested_example) (ascii ''/r'') [] (Some [ascii ''*.log'']) state0
       = (None, \<lparr>stdout = [branch_last @ ascii ''a/'', prefix_blank @ branch_last @ ascii ''x/''],
                 requests = []\<rparr>)"
proof -
  have h1: "0 < length (surviving (Some [ascii ''*.log'']) nested_example)"
    by (simp add: surviving_nested)
  have h2: "surviving (Some [ascii ''*.log'']) nested_example ! 0
       = (ascii ''a'', Dir (Inr [(ascii ''x'', Dir (Inr []))]))"
    by (simp add: surviving_nested)
  note t = dir_prefix_extension[OF h1 h2, where env = env0 and path = "ascii ''/r''"
      and prefix = "[]" and st = state0]
  have a: "print_tree env0 (Inr nested_example) (ascii ''/r'') [] (Some [ascii ''*.log'']) state0
       = and_then (print_line (env_console env0) (branch_last @ ascii ''a/'') state0)
           (\<lambda>st2. and_then (print_tree env0 (Inr [(ascii ''x'', Dir (Inr []))]) (ascii ''/r/a'')
                               prefix_blank (Some [ascii ''*.log'']) st2)
              (\<lambda>st3. (None, st3)))"
    using t[unfolded surviving_nested] by (simp add: path_join_def ascii_def)
  have sx: "surviving (Some [ascii ''*.log'']) [(ascii ''x'', Dir (Inr []))] = [(ascii ''x'', Dir (Inr []))]"
    by (simp add: surviving_def fnmatch_eval ascii_def)
  have se: "surviving (Some [ascii ''*.log'']) [] = []"
    by (simp add: surviving_def)
  have b: "print_tree env0 (Inr nested_example) (ascii ''/r'') [] (Some [ascii ''*.log'']) state0
       = (None, \<lparr>stdout = [branch_last @ ascii ''a/'', prefix_blank @ branch_last @ ascii ''x/''],
                 requests = []\<rparr>)"
    unfolding a using sx se
    by (simp add: Let_def print_entries_Dir branch_of_def is_last_def child_prefix_def print_line_def
        state0_def env0_def quiet_console_def path_join_def) (simp add: ascii_def)
  from h1 h2 a b show ?thesis by blast
qed

end
